theory Spec2Isabelle
  imports Main "HOL-Library.Sublist" "HOL-Library.AList"
begin

section \<open>JavaScript values\<close>

text \<open>
  The core module (\<^verbatim>\<open>src/core.js\<close>) is dynamically typed: a configuration is whatever
  value the caller passes.  Values are modelled by the datatype below.

  \<^item> Strings are lists of 8-bit code units (the Latin-1 range of JavaScript's UTF-16
    code units); \<open>length\<close> is the \<^verbatim>\<open>.length\<close> of the source.
  \<^item> Numbers are the integral ones; the core never computes with a number taken from a
    configuration, it only tests its truthiness and its type.
  \<^item> An object is the list of its own enumerable properties in the order in which
    \<^verbatim>\<open>Object.keys\<close> enumerates them; its prototype is \<^verbatim>\<open>Object.prototype\<close>.
  \<^item> \<open>JBuiltin k\<close> is the built-in member that a value inherits under the name \<open>k\<close>
    (\<^verbatim>\<open>({}).toString\<close>, \<^verbatim>\<open>({}).constructor\<close>, ...): an opaque function, and for
    \<^verbatim>\<open>__proto__\<close> the prototype object itself.
\<close>

datatype jsval =
    JUndefined
  | JNull
  | JBool bool
  | JNum int
  | JStr string
  | JArr "jsval list"
  | JObj "(string \<times> jsval) list"
  | JBuiltin string

text \<open>
  What a call can do besides returning: throw (every throw of the core on plain data is
  a \<^verbatim>\<open>TypeError\<close> of the runtime), or leave the part of JavaScript that is modelled
  here (\<open>Unmodelled\<close>: the model says nothing about the call).
\<close>

datatype error = TypeError | Unmodelled

definition bind_err :: "error + 'a \<Rightarrow> ('a \<Rightarrow> error + 'b) \<Rightarrow> error + 'b" where
  "bind_err m f = (case m of Inl e \<Rightarrow> Inl e | Inr x \<Rightarrow> f x)"

text \<open>ToBoolean: what \<^verbatim>\<open>!v\<close> and \<^verbatim>\<open>v || w\<close> test.\<close>

fun truthy :: "jsval \<Rightarrow> bool" where
  "truthy JUndefined = False"
| "truthy JNull = False"
| "truthy (JBool b) = b"
| "truthy (JNum n) = (n \<noteq> 0)"
| "truthy (JStr s) = (s \<noteq> [])"
| "truthy (JArr xs) = True"
| "truthy (JObj kvs) = True"
| "truthy (JBuiltin k) = True"

fun typeof :: "jsval \<Rightarrow> string" where
  "typeof JUndefined = ''undefined''"
| "typeof JNull = ''object''"
| "typeof (JBool b) = ''boolean''"
| "typeof (JNum n) = ''number''"
| "typeof (JStr s) = ''string''"
| "typeof (JArr xs) = ''object''"
| "typeof (JObj kvs) = ''object''"
| "typeof (JBuiltin k) = (if k = ''__proto__'' then ''object'' else ''function'')"

text \<open>\<^verbatim>\<open>a || b\<close> on values.\<close>

definition js_or :: "jsval \<Rightarrow> jsval \<Rightarrow> jsval" where
  "js_or a b = (if truthy a then a else b)"

subsection \<open>Decimal numerals\<close>

function show_nat :: "nat \<Rightarrow> string" where
  "show_nat n =
     (if n < 10 then [char_of (48 + n)]
      else show_nat (n div 10) @ [char_of (48 + n mod 10)])"
  by pat_completeness auto
termination
  by (relation "measure id") auto

declare show_nat.simps [simp del]

subsection \<open>Property reads\<close>

text \<open>The members every object inherits from \<^verbatim>\<open>Object.prototype\<close>.\<close>

definition object_prototype_names :: "string list" where
  "object_prototype_names =
     [''constructor'', ''__defineGetter__'', ''__defineSetter__'', ''hasOwnProperty'',
      ''__lookupGetter__'', ''__lookupSetter__'', ''isPrototypeOf'',
      ''propertyIsEnumerable'', ''toString'', ''valueOf'', ''__proto__'',
      ''toLocaleString'']"

text \<open>
  The property names that the core reads by name.  None of them is a member of
  \<^verbatim>\<open>Object.prototype\<close>, \<^verbatim>\<open>Array.prototype\<close>, \<^verbatim>\<open>String.prototype\<close>,
  \<^verbatim>\<open>Number.prototype\<close> or \<^verbatim>\<open>Boolean.prototype\<close>.
\<close>

definition plain_names :: "string list" where
  "plain_names =
     [''name'', ''installers'', ''homepage'', ''fallback'', ''badge'', ''label'',
      ''color'', ''style'', ''darwin'', ''win32'', ''linux'']"

text \<open>Own enumerable string-keyed properties, in \<^verbatim>\<open>Object.keys\<close> order.\<close>

fun own_props :: "jsval \<Rightarrow> (string \<times> jsval) list" where
  "own_props (JObj kvs) = kvs"
| "own_props (JArr xs) = zip (map show_nat [0..<length xs]) xs"
| "own_props (JStr s) = zip (map show_nat [0..<length s]) (map (\<lambda>c. JStr [c]) s)"
| "own_props v = []"

text \<open>
  \<^verbatim>\<open>v[k]\<close> and \<^verbatim>\<open>v.k\<close>.  Reading a property of \<^verbatim>\<open>undefined\<close> or \<^verbatim>\<open>null\<close> throws.
  An object yields its own property, else the member of \<^verbatim>\<open>Object.prototype\<close> of that
  name, else \<^verbatim>\<open>undefined\<close>.  For arrays and primitives the own properties, \<^verbatim>\<open>length\<close>
  and the members inherited from \<^verbatim>\<open>Object.prototype\<close> are modelled; the further members
  of their own prototypes are not enumerated, so a read under any other name than the
  \<open>plain_names\<close> is \<open>Unmodelled\<close>, as is every read from a built-in member.
\<close>

definition inherited :: "string \<Rightarrow> error + jsval" where
  "inherited k =
     (if k \<in> set object_prototype_names then Inr (JBuiltin k)
      else if k \<in> set plain_names then Inr JUndefined
      else Inl Unmodelled)"

definition read_object :: "(string \<times> jsval) list \<Rightarrow> string \<Rightarrow> jsval" where
  "read_object kvs k =
     (case map_of kvs k of
        Some x \<Rightarrow> x
      | None \<Rightarrow> if k \<in> set object_prototype_names then JBuiltin k else JUndefined)"

definition get :: "jsval \<Rightarrow> string \<Rightarrow> error + jsval" where
  "get v k =
     (case v of
        JUndefined \<Rightarrow> Inl TypeError
      | JNull \<Rightarrow> Inl TypeError
      | JBuiltin b \<Rightarrow> Inl Unmodelled
      | JObj kvs \<Rightarrow> Inr (read_object kvs k)
      | JArr xs \<Rightarrow>
          (case map_of (own_props v) k of
             Some x \<Rightarrow> Inr x
           | None \<Rightarrow> if k = ''length'' then Inr (JNum (int (length xs))) else inherited k)
      | JStr s \<Rightarrow>
          (case map_of (own_props v) k of
             Some x \<Rightarrow> Inr x
           | None \<Rightarrow> if k = ''length'' then Inr (JNum (int (length s))) else inherited k)
      | JBool b \<Rightarrow> inherited k
      | JNum n \<Rightarrow> inherited k)"

text \<open>\<^verbatim>\<open>Object.keys(v)\<close>: throws on \<^verbatim>\<open>undefined\<close> and \<^verbatim>\<open>null\<close>.\<close>

definition object_keys :: "jsval \<Rightarrow> error + string list" where
  "object_keys v =
     (case v of
        JUndefined \<Rightarrow> Inl TypeError
      | JNull \<Rightarrow> Inl TypeError
      | _ \<Rightarrow> Inr (map fst (own_props v)))"

subsection \<open>Strings\<close>

text \<open>
  \<^verbatim>\<open>String.prototype.toLowerCase\<close> on the Latin-1 range: \<^verbatim>\<open>A\<close>--\<^verbatim>\<open>Z\<close> and the
  accented capitals U+00C0--U+00DE (but not the multiplication sign U+00D7) move up
  by 32; every other code unit is left alone.
\<close>

definition to_lower_char :: "char \<Rightarrow> char" where
  "to_lower_char c =
     (let n = (of_char c :: nat)
      in if (65 \<le> n \<and> n \<le> 90) \<or> (192 \<le> n \<and> n \<le> 222 \<and> n \<noteq> 215)
         then char_of (n + 32) else c)"

text \<open>\<^verbatim>\<open>s.includes(pat)\<close>: \<open>pat\<close> occurs in \<open>s\<close> as a contiguous run.\<close>

fun includes_str :: "string \<Rightarrow> string \<Rightarrow> bool" where
  "includes_str [] pat = (pat = [])"
| "includes_str (c # s) pat = (prefix pat (c # s) \<or> includes_str s pat)"

text \<open>
  \<^verbatim>\<open>v.toLowerCase()\<close>.  On a string it returns the lowered string.  On any other plain
  value the member is \<^verbatim>\<open>undefined\<close> or not callable and the call throws; the one case
  left out is an object that stores a built-in function under that name.
\<close>

definition toLowerCase :: "jsval \<Rightarrow> error + string" where
  "toLowerCase v =
     (case v of
        JStr s \<Rightarrow> Inr (map to_lower_char s)
      | JBuiltin b \<Rightarrow> Inl Unmodelled
      | _ \<Rightarrow>
          (case map_of (own_props v) ''toLowerCase'' of
             Some (JBuiltin b) \<Rightarrow> Inl Unmodelled
           | _ \<Rightarrow> Inl TypeError))"

section \<open>OS detection\<close>

text \<open>\<^verbatim>\<open>detectOS(userAgent)\<close>, \<^verbatim>\<open>src/core.js\<close> lines 74--97.\<close>

definition detectOS :: "jsval \<Rightarrow> error + string" where
  "detectOS userAgent =
     (if \<not> truthy userAgent then Inr ''unknown''
      else bind_err (toLowerCase userAgent) (\<lambda>ua.
        if includes_str ua ''mac'' \<or> includes_str ua ''darwin'' \<or>
           includes_str ua ''iphone'' \<or> includes_str ua ''ipad''
        then Inr ''darwin''
        else if includes_str ua ''linux'' \<or> includes_str ua ''android''
        then Inr ''linux''
        else if includes_str ua ''win''
        then Inr ''win32''
        else Inr ''unknown''))"

section \<open>URL syntax\<close>

text \<open>
  \<^verbatim>\<open>isValidURL\<close> calls the platform's \<^verbatim>\<open>new URL(value)\<close> and observes only whether it
  throws.  The constructor is the basic URL parser of the WHATWG URL Standard, run
  without a base URL; the functions below follow its state machine as far as failure
  is concerned (the parsed record itself is never used by the core).  Once the host and
  port are accepted nothing can fail: the path, query and fragment states only report
  validation errors, which do not make the constructor throw.

  Two parts of host parsing are not modelled but taken as parameters: the Unicode
  \<^verbatim>\<open>ToASCII\<close> processing (UTS #46) of a domain that is not plain ASCII or that has an
  \<^verbatim>\<open>xn--\<close> label, and the IPv6 address parser.
\<close>

record url_env =
  domain_to_ascii :: "string \<Rightarrow> string option"
  ipv6_parses :: "string \<Rightarrow> bool"

definition is_c0_or_space :: "char \<Rightarrow> bool" where
  "is_c0_or_space c = ((of_char c :: nat) \<le> 32)"

definition is_tab_or_newline :: "char \<Rightarrow> bool" where
  "is_tab_or_newline c = (c = CHR 0x09 \<or> c = CHR 0x0A \<or> c = CHR 0x0D)"

definition ascii_upper_alpha :: "char \<Rightarrow> bool" where
  "ascii_upper_alpha c = (65 \<le> (of_char c :: nat) \<and> (of_char c :: nat) \<le> 90)"

definition ascii_lower_alpha :: "char \<Rightarrow> bool" where
  "ascii_lower_alpha c = (97 \<le> (of_char c :: nat) \<and> (of_char c :: nat) \<le> 122)"

definition ascii_alpha :: "char \<Rightarrow> bool" where
  "ascii_alpha c = (ascii_upper_alpha c \<or> ascii_lower_alpha c)"

definition ascii_digit :: "char \<Rightarrow> bool" where
  "ascii_digit c = (48 \<le> (of_char c :: nat) \<and> (of_char c :: nat) \<le> 57)"

definition ascii_hex_digit :: "char \<Rightarrow> bool" where
  "ascii_hex_digit c =
     (ascii_digit c \<or> (65 \<le> (of_char c :: nat) \<and> (of_char c :: nat) \<le> 70)
        \<or> (97 \<le> (of_char c :: nat) \<and> (of_char c :: nat) \<le> 102))"

definition is_ascii :: "char \<Rightarrow> bool" where
  "is_ascii c = ((of_char c :: nat) < 128)"

definition ascii_lower :: "char \<Rightarrow> char" where
  "ascii_lower c = (if ascii_upper_alpha c then char_of ((of_char c :: nat) + 32) else c)"

text \<open>The value of a digit in radix 8, 10 or 16.\<close>

definition digit_value :: "char \<Rightarrow> nat" where
  "digit_value c =
     (if ascii_digit c then of_char c - 48
      else if ascii_upper_alpha c then of_char c - 55
      else of_char c - 87)"

definition radix_digit :: "nat \<Rightarrow> char \<Rightarrow> bool" where
  "radix_digit r c = (ascii_hex_digit c \<and> digit_value c < r)"

definition radix_value :: "nat \<Rightarrow> string \<Rightarrow> nat" where
  "radix_value r s = foldl (\<lambda>acc c. acc * r + digit_value c) 0 s"

text \<open>Strictly splitting a string on a delimiter.\<close>

fun split_on :: "char \<Rightarrow> string \<Rightarrow> string list" where
  "split_on d [] = [[]]"
| "split_on d (c # cs) =
     (if c = d then [] # split_on d cs
      else (case split_on d cs of
              [] \<Rightarrow> [[c]]
            | p # ps \<Rightarrow> (c # p) # ps))"

subsection \<open>Hosts\<close>

definition forbidden_host_code_point :: "char \<Rightarrow> bool" where
  "forbidden_host_code_point c =
     (c \<in> set [CHR 0x00, CHR 0x09, CHR 0x0A, CHR 0x0D, CHR '' '', CHR ''#'', CHR ''/'',
               CHR '':'', CHR ''<'', CHR ''>'', CHR ''?'', CHR ''@'', CHR ''['', CHR 0x5C,
               CHR '']'', CHR ''^'', CHR ''|''])"

definition forbidden_domain_code_point :: "char \<Rightarrow> bool" where
  "forbidden_domain_code_point c =
     (forbidden_host_code_point c \<or> (of_char c :: nat) \<le> 31 \<or> c = CHR ''%''
        \<or> c = CHR 0x7F)"

text \<open>The IPv4 number parser: \<open>None\<close> is failure.\<close>

definition ipv4_number :: "string \<Rightarrow> nat option" where
  "ipv4_number input =
     (if input = [] then None
      else
        let hex = (2 \<le> length input \<and> (take 2 input = ''0X'' \<or> take 2 input = ''0x''));
            oct = (\<not> hex \<and> 2 \<le> length input \<and> hd input = CHR ''0'');
            r = (if hex then 16 else if oct then 8 else 10);
            digits = (if hex then drop 2 input else if oct then tl input else input)
        in if digits = [] then Some 0
           else if list_all (radix_digit r) digits then Some (radix_value r digits)
           else None)"

definition ends_in_number :: "string \<Rightarrow> bool" where
  "ends_in_number input =
     (let parts = split_on CHR ''.'' input;
          parts1 = (if last parts = [] then butlast parts else parts)
      in if parts1 = [] then False
         else
           let l = last parts1
           in (l \<noteq> [] \<and> list_all ascii_digit l) \<or> ipv4_number l \<noteq> None)"

definition ipv4_parses :: "string \<Rightarrow> bool" where
  "ipv4_parses input =
     (let parts = split_on CHR ''.'' input;
          parts1 = (if last parts = [] \<and> 1 < length parts then butlast parts else parts)
      in if 4 < length parts1 then False
         else if list_ex (\<lambda>p. ipv4_number p = None) parts1 then False
         else
           let numbers = map (\<lambda>p. the (ipv4_number p)) parts1
           in \<not> list_ex (\<lambda>n. 255 < n) (butlast numbers)
              \<and> last numbers < 256 ^ (5 - length numbers))"

text \<open>Percent-decoding of a byte sequence.\<close>

fun percent_decode :: "string \<Rightarrow> string" where
  "percent_decode (c # h # l # cs) =
     (if c = CHR ''%'' \<and> ascii_hex_digit h \<and> ascii_hex_digit l
      then char_of (digit_value h * 16 + digit_value l) # percent_decode cs
      else c # percent_decode (h # l # cs))"
| "percent_decode cs = cs"

definition has_xn_label :: "string \<Rightarrow> bool" where
  "has_xn_label d =
     list_ex (\<lambda>lbl. map ascii_lower (take 4 lbl) = ''xn--'') (split_on CHR ''.'' d)"

text \<open>
  Percent-decode, then domain to ASCII.  A domain that is plain ASCII after decoding
  and has no \<^verbatim>\<open>xn--\<close> label is lower-cased; every other one is handed to the
  parameter.
\<close>

definition domain_ascii :: "url_env \<Rightarrow> string \<Rightarrow> string option" where
  "domain_ascii env input =
     (if list_all is_ascii input \<and> list_all is_ascii (percent_decode input)
         \<and> \<not> has_xn_label (percent_decode input)
      then Some (map ascii_lower (percent_decode input))
      else domain_to_ascii env input)"

text \<open>The host parser; \<open>is_opaque\<close> is true for a scheme that is not special.\<close>

definition host_parses :: "url_env \<Rightarrow> bool \<Rightarrow> string \<Rightarrow> bool" where
  "host_parses env is_opaque input =
     (if input \<noteq> [] \<and> hd input = CHR ''[''
      then (if last input \<noteq> CHR '']'' then False
            else ipv6_parses env (butlast (tl input)))
      else if is_opaque then \<not> list_ex forbidden_host_code_point input
      else (case domain_ascii env input of
              None \<Rightarrow> False
            | Some d \<Rightarrow>
                d \<noteq> [] \<and> \<not> list_ex forbidden_domain_code_point d
                  \<and> (if ends_in_number d then ipv4_parses d else True)))"

subsection \<open>The state machine\<close>

definition is_authority_end :: "bool \<Rightarrow> char \<Rightarrow> bool" where
  "is_authority_end special c =
     (c = CHR ''/'' \<or> c = CHR ''?'' \<or> c = CHR ''#'' \<or> (special \<and> c = CHR 0x5C))"

definition port_in_range :: "string \<Rightarrow> bool" where
  "port_in_range buf = (if buf = [] then True else radix_value 10 buf \<le> 65535)"

text \<open>Port state: the arguments are the buffer and the input from the pointer on.\<close>

fun port_state :: "bool \<Rightarrow> string \<Rightarrow> string \<Rightarrow> bool" where
  "port_state special buf [] = port_in_range buf"
| "port_state special buf (c # cs) =
     (if ascii_digit c then port_state special (buf @ [c]) cs
      else if is_authority_end special c then port_in_range buf
      else False)"

text \<open>Host state, with its \<^verbatim>\<open>insideBrackets\<close> flag and buffer.\<close>

fun host_state :: "url_env \<Rightarrow> bool \<Rightarrow> bool \<Rightarrow> string \<Rightarrow> string \<Rightarrow> bool" where
  "host_state env special inside buf [] =
     (if special \<and> buf = [] then False else host_parses env (\<not> special) buf)"
| "host_state env special inside buf (c # cs) =
     (if c = CHR '':'' \<and> \<not> inside
      then (if buf = [] then False
            else host_parses env (\<not> special) buf \<and> port_state special [] cs)
      else if is_authority_end special c
      then (if special \<and> buf = [] then False else host_parses env (\<not> special) buf)
      else host_state env special
             (if c = CHR ''['' then True else if c = CHR '']'' then False else inside)
             (buf @ [c]) cs)"

text \<open>
  Authority state, with its \<^verbatim>\<open>atSignSeen\<close> flag and buffer.  At the end of the
  authority the pointer moves back to the start of the buffer and the host state reads
  the same input again.
\<close>

fun authority_state :: "url_env \<Rightarrow> bool \<Rightarrow> bool \<Rightarrow> string \<Rightarrow> string \<Rightarrow> bool" where
  "authority_state env special seen buf [] =
     (if seen \<and> buf = [] then False else host_state env special False [] buf)"
| "authority_state env special seen buf (c # cs) =
     (if c = CHR ''@'' then authority_state env special True [] cs
      else if is_authority_end special c
      then (if seen \<and> buf = [] then False
            else host_state env special False [] (buf @ c # cs))
      else authority_state env special seen (buf @ [c]) cs)"

definition is_slash :: "char \<Rightarrow> bool" where
  "is_slash c = (c = CHR ''/'' \<or> c = CHR 0x5C)"

definition is_windows_drive_letter :: "string \<Rightarrow> bool" where
  "is_windows_drive_letter buf =
     (length buf = 2 \<and> ascii_alpha (hd buf) \<and> (buf ! 1 = CHR '':'' \<or> buf ! 1 = CHR ''|''))"

definition file_host_end :: "url_env \<Rightarrow> string \<Rightarrow> bool" where
  "file_host_end env buf =
     (if is_windows_drive_letter buf then True
      else if buf = [] then True
      else host_parses env False buf)"

fun file_host_state :: "url_env \<Rightarrow> string \<Rightarrow> string \<Rightarrow> bool" where
  "file_host_state env buf [] = file_host_end env buf"
| "file_host_state env buf (c # cs) =
     (if is_slash c \<or> c = CHR ''?'' \<or> c = CHR ''#'' then file_host_end env buf
      else file_host_state env (buf @ [c]) cs)"

text \<open>File state and file slash state; without a base URL both fall through to the path.\<close>

definition file_state :: "url_env \<Rightarrow> string \<Rightarrow> bool" where
  "file_state env rest =
     (if rest \<noteq> [] \<and> is_slash (hd rest)
      then (if tl rest \<noteq> [] \<and> is_slash (hd (tl rest))
            then file_host_state env [] (tl (tl rest))
            else True)
      else True)"

definition special_schemes :: "string list" where
  "special_schemes = [''ftp'', ''file'', ''http'', ''https'', ''ws'', ''wss'']"

text \<open>
  What follows the colon of the scheme: the file state; for a special scheme the two
  special-authority states, which skip every leading slash and backslash; otherwise the
  path-or-authority state after one slash, or an opaque path.
\<close>

definition after_scheme :: "url_env \<Rightarrow> string \<Rightarrow> string \<Rightarrow> bool" where
  "after_scheme env scheme rest =
     (if scheme = ''file'' then file_state env rest
      else if scheme \<in> set special_schemes
      then authority_state env True False [] (dropWhile is_slash rest)
      else if prefix ''//'' rest then authority_state env False False [] (drop 2 rest)
      else True)"

text \<open>
  Scheme state.  Without a base URL the no-scheme state it falls back to is failure.
\<close>

fun scheme_state :: "url_env \<Rightarrow> string \<Rightarrow> string \<Rightarrow> bool" where
  "scheme_state env buf [] = False"
| "scheme_state env buf (c # cs) =
     (if ascii_alpha c \<or> ascii_digit c \<or> c = CHR ''+'' \<or> c = CHR ''-'' \<or> c = CHR ''.''
      then scheme_state env (buf @ [ascii_lower c]) cs
      else if c = CHR '':'' then after_scheme env buf cs
      else False)"

definition scheme_start_state :: "url_env \<Rightarrow> string \<Rightarrow> bool" where
  "scheme_start_state env input =
     (case input of
        [] \<Rightarrow> False
      | c # cs \<Rightarrow> if ascii_alpha c then scheme_state env [ascii_lower c] cs else False)"

text \<open>
  The parser proper: leading and trailing C0 controls and spaces are stripped, every
  tab and newline is removed, and the state machine runs from the scheme start state.
\<close>

definition url_parses :: "url_env \<Rightarrow> string \<Rightarrow> bool" where
  "url_parses env input =
     scheme_start_state env
       (filter (\<lambda>c. \<not> is_tab_or_newline c)
          (rev (dropWhile is_c0_or_space (rev (dropWhile is_c0_or_space input)))))"

text \<open>
  A platform whose two parameters reject every host they are asked about; used to
  evaluate the functions at concrete inputs.
\<close>

definition plain_env :: url_env where
  "plain_env = \<lparr>domain_to_ascii = (\<lambda>s. None), ipv6_parses = (\<lambda>s. False)\<rparr>"

text \<open>\<^verbatim>\<open>isValidURL(value)\<close>, \<^verbatim>\<open>src/core.js\<close> lines 15--23.\<close>

definition isValidURL :: "url_env \<Rightarrow> jsval \<Rightarrow> bool" where
  "isValidURL env v =
     (if typeof v \<noteq> ''string'' then False
      else (case v of JStr s \<Rightarrow> url_parses env s | _ \<Rightarrow> False))"

section \<open>Config validation\<close>

definition PLATFORM_ORDER :: "string list" where
  "PLATFORM_ORDER = [''darwin'', ''win32'', ''linux'']"

record validation_result =
  valid :: bool
  errors :: "string list"

text \<open>
  The body of \<^verbatim>\<open>platforms.forEach(platform => ...)\<close>, \<^verbatim>\<open>src/core.js\<close> lines 48--61, as a
  loop over the keys that threads the \<^verbatim>\<open>errors\<close> array.
\<close>

fun check_platforms :: "url_env \<Rightarrow> jsval \<Rightarrow> string list \<Rightarrow> string list \<Rightarrow> error + string list" where
  "check_platforms env installers [] errs = Inr errs"
| "check_platforms env installers (platform # rest) errs =
     (let errs1 =
            (if platform \<notin> set PLATFORM_ORDER
             then errs @ [''invalid platform: '' @ platform @ '' (must be darwin, win32, or linux)'']
             else errs)
      in bind_err (get installers platform) (\<lambda>url.
           let errs2 =
                 (if \<not> isValidURL env url
                  then errs1 @ [''installer for '' @ platform @ '' must be a valid HTTP(S) URL'']
                  else errs1)
           in check_platforms env installers rest errs2))"

text \<open>\<^verbatim>\<open>validateConfig(config)\<close>, \<^verbatim>\<open>src/core.js\<close> lines 28--68.\<close>

definition validateConfig :: "url_env \<Rightarrow> jsval \<Rightarrow> error + validation_result" where
  "validateConfig env config =
     (if \<not> truthy config \<or> typeof config \<noteq> ''object''
      then Inr \<lparr>valid = False, errors = [''Config must be an object'']\<rparr>
      else
        bind_err (get config ''name'') (\<lambda>name.
        let errs1 =
              (if \<not> truthy name \<or> typeof name \<noteq> ''string''
               then [''name is required and must be a string'']
               else [])
        in
        bind_err (get config ''installers'') (\<lambda>installers.
        bind_err
          (if \<not> truthy installers \<or> typeof installers \<noteq> ''object''
           then Inr (errs1 @ [''installers is required and must be an object''])
           else
             bind_err (object_keys installers) (\<lambda>platforms.
             let errs2 =
                   (if length platforms = 0
                    then errs1 @ [''at least one installer platform must be specified'']
                    else errs1)
             in check_platforms env installers platforms errs2))
          (\<lambda>errs. Inr \<lparr>valid = (length errs = 0), errors = errs\<rparr>))))"

text \<open>
  For comparison with the loop: the errors that one key of \<^verbatim>\<open>installers\<close> contributes
  according to the specification, namely one if the key is not a platform, and,
  separately, one if its value is not a valid URL.
\<close>

definition key_errors :: "url_env \<Rightarrow> string \<Rightarrow> jsval \<Rightarrow> string list" where
  "key_errors env platform url =
     (if platform \<in> set PLATFORM_ORDER then []
      else [''invalid platform: '' @ platform @ '' (must be darwin, win32, or linux)''])
     @ (if isValidURL env url then []
        else [''installer for '' @ platform @ '' must be a valid HTTP(S) URL''])"

section \<open>Install targets\<close>

text \<open>
  The loop of \<^verbatim>\<open>getFirstInstaller\<close>: the first truthy \<^verbatim>\<open>installers[platform]\<close> in the
  given order, if there is one.
\<close>

fun first_in_order :: "jsval \<Rightarrow> string list \<Rightarrow> error + jsval option" where
  "first_in_order installers [] = Inr None"
| "first_in_order installers (platform # rest) =
     bind_err (get installers platform) (\<lambda>v.
       if truthy v then Inr (Some v) else first_in_order installers rest)"

text \<open>\<^verbatim>\<open>Object.values(v)\<close>: throws on \<^verbatim>\<open>undefined\<close> and \<^verbatim>\<open>null\<close>.\<close>

definition object_values :: "jsval \<Rightarrow> error + jsval list" where
  "object_values v =
     (case v of
        JUndefined \<Rightarrow> Inl TypeError
      | JNull \<Rightarrow> Inl TypeError
      | _ \<Rightarrow> Inr (map snd (own_props v)))"

text \<open>
  \<^verbatim>\<open>getFirstInstaller(installers = {})\<close>, \<^verbatim>\<open>src/core.js\<close> lines 102--107.  The default
  applies to a missing or \<^verbatim>\<open>undefined\<close> argument only; \<^verbatim>\<open>xs[0]\<close> of an empty array is
  \<^verbatim>\<open>undefined\<close>.
\<close>

definition getFirstInstaller :: "jsval \<Rightarrow> error + jsval" where
  "getFirstInstaller arg =
     (let installers = (if arg = JUndefined then JObj [] else arg)
      in bind_err (first_in_order installers PLATFORM_ORDER) (\<lambda>found.
           case found of
             Some v \<Rightarrow> Inr v
           | None \<Rightarrow>
               bind_err (object_values installers) (\<lambda>vals.
                 Inr (js_or (case vals of [] \<Rightarrow> JUndefined | v # rest \<Rightarrow> v) JNull))))"

text \<open>
  The two shapes of an install target: \<^verbatim>\<open>{available: true, platform, url}\<close> and
  \<^verbatim>\<open>{available: false, platform, fallback}\<close>.  The first has no \<^verbatim>\<open>fallback\<close> field and
  the second no \<^verbatim>\<open>url\<close> field.
\<close>

datatype install_target =
    Available string jsval
  | Unavailable string jsval

text \<open>\<^verbatim>\<open>getInstallTarget(config, os)\<close>, \<^verbatim>\<open>src/core.js\<close> lines 112--128.\<close>

definition getInstallTarget :: "jsval \<Rightarrow> string \<Rightarrow> error + install_target" where
  "getInstallTarget config os =
     bind_err (get config ''installers'') (\<lambda>i.
     let installers = js_or i (JObj [])
     in bind_err (get installers os) (\<lambda>v.
          if \<not> truthy v
          then bind_err (get config ''fallback'') (\<lambda>fallback.
                 if truthy fallback then Inr (Unavailable os fallback)
                 else bind_err (get config ''homepage'') (\<lambda>homepage.
                        Inr (Unavailable os (js_or homepage JNull))))
          else Inr (Available os v)))"

text \<open>
  For comparison: the install target as the specification words it.  \<^verbatim>\<open>a ?? b\<close> is \<open>b\<close>
  when \<open>a\<close> is \<^verbatim>\<open>null\<close> or \<^verbatim>\<open>undefined\<close> and \<open>a\<close> otherwise; ``\<^verbatim>\<open>installers[p]\<close> is set''
  is read as \<open>p\<close> being a key of the \<^verbatim>\<open>installers\<close> map, and a missing map as the empty one.
\<close>

definition nullish_or :: "jsval \<Rightarrow> jsval \<Rightarrow> jsval" where
  "nullish_or a b = (if a = JUndefined \<or> a = JNull then b else a)"

definition getInstallTarget_spec :: "(string \<times> jsval) list \<Rightarrow> string \<Rightarrow> install_target" where
  "getInstallTarget_spec c p =
     (case map_of (case read_object c ''installers'' of JObj m \<Rightarrow> m | _ \<Rightarrow> []) p of
        Some url \<Rightarrow> Available p url
      | None \<Rightarrow>
          Unavailable p
            (nullish_or (read_object c ''fallback'')
               (nullish_or (read_object c ''homepage'') JNull)))"

section \<open>Rendering\<close>

definition nl :: string where
  "nl = [CHR 0x0A]"

text \<open>
  \<^verbatim>\<open>${v}\<close> in a template literal.  Objects, arrays and functions convert through their
  \<^verbatim>\<open>toString\<close> members, which are not modelled.
\<close>

definition to_string :: "jsval \<Rightarrow> error + string" where
  "to_string v =
     (case v of
        JStr s \<Rightarrow> Inr s
      | JUndefined \<Rightarrow> Inr ''undefined''
      | JNull \<Rightarrow> Inr ''null''
      | JBool b \<Rightarrow> Inr (if b then ''true'' else ''false'')
      | JNum n \<Rightarrow>
          (if 0 \<le> n \<and> n < 2 ^ 53 then Inr (show_nat (nat n))
           else if - (2 ^ 53) < n \<and> n < 0 then Inr (''-'' @ show_nat (nat (- n)))
           else Inl Unmodelled)
      | _ \<Rightarrow> Inl Unmodelled)"

text \<open>A number used in arithmetic: only the non-negative integral ones are modelled.\<close>

definition to_nat :: "jsval \<Rightarrow> error + nat" where
  "to_nat v = (case v of JNum n \<Rightarrow> if 0 \<le> n then Inr (nat n) else Inl Unmodelled | _ \<Rightarrow> Inl Unmodelled)"

text \<open>The decimal form of \<open>k / 2\<close>, as JavaScript prints that number.\<close>

definition show_half :: "nat \<Rightarrow> string" where
  "show_half k = (if even k then show_nat (k div 2) else show_nat (k div 2) @ ''.5'')"

text \<open>The two template literals of \<^verbatim>\<open>generateBadge\<close>, with the interpolated texts as arguments.\<close>

definition flat_badge :: "string \<Rightarrow> string \<Rightarrow> string \<Rightarrow> string \<Rightarrow> string \<Rightarrow> string \<Rightarrow> string \<Rightarrow> string \<Rightarrow> string" where
  "flat_badge totalWidth_s labelWidth_s nameWidth_s labelHalf_s nameMid_s color_s label_s appName_s =
        ''<svg xmlns=\"http://www.w3.org/2000/svg\" width=\"'' @ totalWidth_s @ ''\" height=\"20\">'' @ nl @
        ''  <linearGradient id=\"b\" x2=\"0\" y2=\"100%\">'' @ nl @
        ''    <stop offset=\"0\" stop-color=\"#bbb\" stop-opacity=\".1\"/>'' @ nl @
        ''    <stop offset=\"1\" stop-opacity=\".1\"/>'' @ nl @
        ''  </linearGradient>'' @ nl @
        ''  <clipPath id=\"a\">'' @ nl @
        ''    <rect width=\"'' @ totalWidth_s @ ''\" height=\"20\" rx=\"3\" fill=\"#fff\"/>'' @ nl @
        ''  </clipPath>'' @ nl @
        ''  <g clip-path=\"url(#a)\">'' @ nl @
        ''    <path fill=\"#555\" d=\"M0 0h'' @ labelWidth_s @ ''v20H0z\"/>'' @ nl @
        ''    <path fill=\"'' @ color_s @ ''\" d=\"M'' @ labelWidth_s @ '' 0h'' @ nameWidth_s @ ''v20H'' @ labelWidth_s @ ''z\"/>'' @ nl @
        ''    <path fill=\"url(#b)\" d=\"M0 0h'' @ totalWidth_s @ ''v20H0z\"/>'' @ nl @
        ''  </g>'' @ nl @
        ''  <g fill=\"#fff\" text-anchor=\"middle\"'' @ nl @
        ''     font-family=\"DejaVu Sans,Verdana,Geneva,sans-serif\" font-size=\"11\">'' @ nl @
        ''    <text x=\"'' @ labelHalf_s @ ''\" y=\"15\" fill=\"#010101\" fill-opacity=\".3\">'' @ label_s @ ''</text>'' @ nl @
        ''    <text x=\"'' @ labelHalf_s @ ''\" y=\"14\">'' @ label_s @ ''</text>'' @ nl @
        ''    <text x=\"'' @ nameMid_s @ ''\" y=\"15\" fill=\"#010101\" fill-opacity=\".3\">'' @ appName_s @ ''</text>'' @ nl @
        ''    <text x=\"'' @ nameMid_s @ ''\" y=\"14\">'' @ appName_s @ ''</text>'' @ nl @
        ''  </g>'' @ nl @
        ''</svg>''"

definition plain_badge :: "string \<Rightarrow> string \<Rightarrow> string \<Rightarrow> string \<Rightarrow> string \<Rightarrow> string \<Rightarrow> string \<Rightarrow> string \<Rightarrow> string" where
  "plain_badge totalWidth_s labelWidth_s nameWidth_s labelHalf_s nameMid_s color_s label_s appName_s =
        ''<svg xmlns=\"http://www.w3.org/2000/svg\" width=\"'' @ totalWidth_s @ ''\" height=\"20\">'' @ nl @
        ''  <rect width=\"'' @ labelWidth_s @ ''\" height=\"20\" fill=\"#555\"/>'' @ nl @
        ''  <rect x=\"'' @ labelWidth_s @ ''\" width=\"'' @ nameWidth_s @ ''\" height=\"20\" fill=\"'' @ color_s @ ''\"/>'' @ nl @
        ''  <text x=\"'' @ labelHalf_s @ ''\" y=\"14\" fill=\"#fff\"'' @ nl @
        ''        font-family=\"Arial,sans-serif\" font-size=\"11\"'' @ nl @
        ''        text-anchor=\"middle\">'' @ label_s @ ''</text>'' @ nl @
        ''  <text x=\"'' @ nameMid_s @ ''\" y=\"14\" fill=\"#fff\"'' @ nl @
        ''        font-family=\"Arial,sans-serif\" font-size=\"11\"'' @ nl @
        ''        text-anchor=\"middle\">'' @ appName_s @ ''</text>'' @ nl @
        ''</svg>''"

text \<open>
  \<^verbatim>\<open>generateBadge(config)\<close>, \<^verbatim>\<open>src/core.js\<close> lines 133--178.  \<^verbatim>\<open>labelWidth\<close> is even, so
  \<^verbatim>\<open>labelWidth / 2\<close> is integral; \<^verbatim>\<open>labelWidth + nameWidth / 2\<close> is half of
  \<open>2 * labelWidth + nameWidth\<close>.
\<close>

definition generateBadge :: "jsval \<Rightarrow> error + string" where
  "generateBadge config =
     bind_err (get config ''badge'') (\<lambda>badge.
     let opts = js_or badge (JObj []) in
     bind_err (get opts ''label'') (\<lambda>l.
     let label = js_or l (JStr ''Install'') in
     bind_err (get config ''name'') (\<lambda>appName.
     bind_err (get opts ''color'') (\<lambda>c.
     let color = js_or c (JStr ''#0366d6'') in
     bind_err (get opts ''style'') (\<lambda>s.
     let style = js_or s (JStr ''flat'') in
     bind_err (bind_err (get label ''length'') to_nat) (\<lambda>labelLength.
     bind_err (bind_err (get appName ''length'') to_nat) (\<lambda>nameLength.
     let labelWidth = labelLength * 6 + 10;
         nameWidth = nameLength * 7 + 10;
         totalWidth = labelWidth + nameWidth
     in
     bind_err (to_string color) (\<lambda>color_s.
     bind_err (to_string label) (\<lambda>label_s.
     bind_err (to_string appName) (\<lambda>appName_s.
       Inr ((if style = JStr ''flat'' then flat_badge else plain_badge)
              (show_nat totalWidth) (show_nat labelWidth) (show_nat nameWidth)
              (show_half labelWidth) (show_half (2 * labelWidth + nameWidth))
              color_s label_s appName_s)))))))))))"

record snippets =
  markdown :: string
  html :: string

text \<open>
  \<^verbatim>\<open>generateSnippets(config, badgePath = './install-badge.svg', installURL = null)\<close>,
  \<^verbatim>\<open>src/core.js\<close> lines 183--202.  An argument that is missing is \<^verbatim>\<open>undefined\<close> and takes
  its default.
\<close>

definition target_url :: "jsval \<Rightarrow> jsval \<Rightarrow> error + jsval" where
  "target_url config installURL =
     (if truthy installURL then Inr installURL
      else bind_err (get config ''homepage'') (\<lambda>homepage.
             if truthy homepage then Inr homepage
             else bind_err (get config ''installers'') getFirstInstaller))"

definition generateSnippets :: "jsval \<Rightarrow> jsval \<Rightarrow> jsval \<Rightarrow> error + snippets" where
  "generateSnippets config badgePathArg installURLArg =
     (let badgePath = (if badgePathArg = JUndefined then JStr ''./install-badge.svg'' else badgePathArg);
          installURL = (if installURLArg = JUndefined then JNull else installURLArg)
      in
      bind_err (target_url config installURL) (\<lambda>targetURL.
      bind_err (get config ''name'') (\<lambda>name.
      bind_err (to_string name) (\<lambda>name_s.
      bind_err (to_string badgePath) (\<lambda>badgePath_s.
      bind_err (to_string targetURL) (\<lambda>targetURL_s.
        Inr \<lparr>markdown =
               ''[![Install '' @ name_s @ '']('' @ badgePath_s @ '')]('' @ targetURL_s @ '')'',
             html =
               ''<a href=\"'' @ targetURL_s @ ''\">'' @ nl @
               ''  <img src=\"'' @ badgePath_s @ ''\" alt=\"Install '' @ name_s @ ''\" />'' @ nl @
               ''</a>''\<rparr>))))))"

section \<open>JSON\<close>

text \<open>
  \<^verbatim>\<open>parseConfig\<close> reads its argument with \<^verbatim>\<open>JSON.parse\<close>, and a configuration is written
  out with \<^verbatim>\<open>JSON.stringify\<close> (\<^verbatim>\<open>src/tests/core.test.js\<close> lines 259 and 278).  Both belong
  to the language; they are modelled after ECMA-262 (\<^verbatim>\<open>SerializeJSONProperty\<close>,
  \<^verbatim>\<open>QuoteJSONString\<close>, the JSON grammar of ECMA-404, \<^verbatim>\<open>InternalizeJSONProperty\<close> without a
  reviver) on the values of \<open>jsval\<close>.
\<close>

subsection \<open>Serialization\<close>











subsection \<open>Parsing\<close>

text \<open>
  \<^verbatim>\<open>JSON.parse(text)\<close> throws a \<^verbatim>\<open>SyntaxError\<close> (\<open>JsonSyntaxError\<close>) or returns a value.
  \<open>JsonBeyondModel\<close> is the answer on a text whose value \<open>jsval\<close> has no term for: a
  number with a fraction or an exponent, \<^verbatim>\<open>-0\<close>, an integer of \<open>2\<^sup>5\<^sup>3\<close> or more, a
  unicode escape of a code unit above \<^verbatim>\<open>00FF\<close>; the model does not say whether the rest of
  such a text is well formed.  The parser is a recursive descent whose recursion is
  bounded by a counter; \<open>JsonOutOfFuel\<close> is the answer when the counter runs out, which
  it never does from \<open>json_parse\<close> (\<open>json_parse_fuel\<close> below).
\<close>

datatype json_error = JsonSyntaxError | JsonBeyondModel | JsonOutOfFuel

definition is_json_ws :: "char \<Rightarrow> bool" where
  "is_json_ws c = (c = CHR 0x09 \<or> c = CHR 0x0A \<or> c = CHR 0x0D \<or> c = CHR '' '')"

definition skip_ws :: "string \<Rightarrow> string" where
  "skip_ws s = dropWhile is_json_ws s"

definition unescape :: "char \<Rightarrow> char option" where
  "unescape e =
     (if e = CHR 0x22 then Some (CHR 0x22)
      else if e = CHR 0x5C then Some (CHR 0x5C)
      else if e = CHR ''/'' then Some (CHR ''/'')
      else if e = CHR ''b'' then Some (CHR 0x08)
      else if e = CHR ''f'' then Some (CHR 0x0C)
      else if e = CHR ''n'' then Some (CHR 0x0A)
      else if e = CHR ''r'' then Some (CHR 0x0D)
      else if e = CHR ''t'' then Some (CHR 0x09)
      else None)"

definition prepend_char :: "char \<Rightarrow> json_error + (string \<times> string) \<Rightarrow> json_error + (string \<times> string)" where
  "prepend_char c r = (case r of Inl e \<Rightarrow> Inl e | Inr p \<Rightarrow> Inr (c # fst p, snd p))"

text \<open>The characters of a string after its opening quote: the string and the rest.\<close>

fun parse_string_chars :: "string \<Rightarrow> json_error + (string \<times> string)" where
  "parse_string_chars [] = Inl JsonSyntaxError"
| "parse_string_chars (c # cs) =
     (if c = CHR 0x22 then Inr ([], cs)
      else if c = CHR 0x5C then
        (case cs of
           [] \<Rightarrow> Inl JsonSyntaxError
         | e # r \<Rightarrow>
             if e = CHR ''u'' then
               (case r of
                  h1 # h2 # h3 # h4 # r' \<Rightarrow>
                    if list_all ascii_hex_digit [h1, h2, h3, h4]
                    then (if radix_value 16 [h1, h2, h3, h4] < 256
                          then prepend_char (char_of (radix_value 16 [h1, h2, h3, h4]))
                                 (parse_string_chars r')
                          else Inl JsonBeyondModel)
                    else Inl JsonSyntaxError
                | _ \<Rightarrow> Inl JsonSyntaxError)
             else (case unescape e of
                     None \<Rightarrow> Inl JsonSyntaxError
                   | Some x \<Rightarrow> prepend_char x (parse_string_chars r)))
      else if (of_char c :: nat) < 32 then Inl JsonSyntaxError
      else prepend_char c (parse_string_chars cs))"

definition decimal_value :: "string \<Rightarrow> int" where
  "decimal_value s = foldl (\<lambda>acc c. acc * 10 + int (digit_value c)) 0 s"

definition parse_number :: "string \<Rightarrow> json_error + (jsval \<times> string)" where
  "parse_number s =
     (let neg = (s \<noteq> [] \<and> hd s = CHR ''-'');
          s1 = (if neg then tl s else s);
          ds = takeWhile ascii_digit s1;
          rest = dropWhile ascii_digit s1
      in if ds = [] then Inl JsonSyntaxError
         else if hd ds = CHR ''0'' \<and> 1 < length ds then Inl JsonSyntaxError
         else if rest \<noteq> [] \<and> (hd rest = CHR ''.'' \<or> hd rest = CHR ''e'' \<or> hd rest = CHR ''E'')
         then Inl JsonBeyondModel
         else if neg \<and> decimal_value ds = 0 then Inl JsonBeyondModel
         else if 2 ^ 53 \<le> decimal_value ds then Inl JsonBeyondModel
         else Inr (JNum (if neg then - decimal_value ds else decimal_value ds), rest))"

definition parse_literal :: "string \<Rightarrow> jsval \<Rightarrow> string \<Rightarrow> json_error + (jsval \<times> string)" where
  "parse_literal word v s =
     (if prefix word s then Inr (v, drop (length word) s) else Inl JsonSyntaxError)"

text \<open>
  A parsed object gets its members by \<^verbatim>\<open>CreateDataProperty\<close>, one after the other.  A
  key that is already there keeps its place and takes the new value; a new key that is
  an array index (a canonical numeral below \<open>2\<^sup>3\<^sup>2 - 1\<close>) goes among the array indices,
  which an object enumerates first and in ascending order; any other new key goes last.
\<close>

definition is_array_index :: "string \<Rightarrow> bool" where
  "is_array_index k =
     (k \<noteq> [] \<and> list_all ascii_digit k \<and> (length k = 1 \<or> hd k \<noteq> CHR ''0'')
        \<and> decimal_value k < 2 ^ 32 - 1)"

definition index_before :: "string \<Rightarrow> string \<Rightarrow> bool" where
  "index_before a b = (is_array_index a \<and> decimal_value a < decimal_value b)"

definition define_property :: "(string \<times> jsval) list \<Rightarrow> string \<Rightarrow> jsval \<Rightarrow> (string \<times> jsval) list" where
  "define_property kvs k v =
     (if map_of kvs k \<noteq> None then AList.update k v kvs
      else if is_array_index k
      then takeWhile (\<lambda>kv. index_before (fst kv) k) kvs @ [(k, v)]
             @ dropWhile (\<lambda>kv. index_before (fst kv) k) kvs
      else kvs @ [(k, v)])"

text \<open>
  A value; the elements of an array after the first one; the members of an object.
  Each returns what it has read and the rest of the text.
\<close>

fun parse_value :: "nat \<Rightarrow> string \<Rightarrow> json_error + (jsval \<times> string)"
  and parse_more_elements :: "nat \<Rightarrow> jsval list \<Rightarrow> string \<Rightarrow> json_error + (jsval \<times> string)"
  and parse_members :: "nat \<Rightarrow> (string \<times> jsval) list \<Rightarrow> string \<Rightarrow> json_error + (jsval \<times> string)"
where
  "parse_value 0 s = Inl JsonOutOfFuel"
| "parse_value (Suc f) s =
     (case skip_ws s of
        [] \<Rightarrow> Inl JsonSyntaxError
      | c # cs \<Rightarrow>
          if c = CHR ''n'' then parse_literal ''null'' JNull (c # cs)
          else if c = CHR ''t'' then parse_literal ''true'' (JBool True) (c # cs)
          else if c = CHR ''f'' then parse_literal ''false'' (JBool False) (c # cs)
          else if c = CHR 0x22 then
            (case parse_string_chars cs of
               Inl e \<Rightarrow> Inl e
             | Inr p \<Rightarrow> Inr (JStr (fst p), snd p))
          else if c = CHR ''-'' \<or> ascii_digit c then parse_number (c # cs)
          else if c = CHR ''['' then
            (if skip_ws cs \<noteq> [] \<and> hd (skip_ws cs) = CHR '']''
             then Inr (JArr [], tl (skip_ws cs))
             else (case parse_value f cs of
                     Inl e \<Rightarrow> Inl e
                   | Inr p \<Rightarrow> parse_more_elements f [fst p] (snd p)))
          else if c = CHR ''{'' then
            (if skip_ws cs \<noteq> [] \<and> hd (skip_ws cs) = CHR ''}''
             then Inr (JObj [], tl (skip_ws cs))
             else parse_members f [] cs)
          else Inl JsonSyntaxError)"
| "parse_more_elements 0 acc s = Inl JsonOutOfFuel"
| "parse_more_elements (Suc f) acc s =
     (case skip_ws s of
        [] \<Rightarrow> Inl JsonSyntaxError
      | c # cs \<Rightarrow>
          if c = CHR '','' then
            (case parse_value f cs of
               Inl e \<Rightarrow> Inl e
             | Inr p \<Rightarrow> parse_more_elements f (acc @ [fst p]) (snd p))
          else if c = CHR '']'' then Inr (JArr acc, cs)
          else Inl JsonSyntaxError)"
| "parse_members 0 acc s = Inl JsonOutOfFuel"
| "parse_members (Suc f) acc s =
     (case skip_ws s of
        [] \<Rightarrow> Inl JsonSyntaxError
      | c # cs \<Rightarrow>
          if c = CHR 0x22 then
            (case parse_string_chars cs of
               Inl e \<Rightarrow> Inl e
             | Inr k \<Rightarrow>
                 (case skip_ws (snd k) of
                    [] \<Rightarrow> Inl JsonSyntaxError
                  | d # ds \<Rightarrow>
                      if d = CHR '':'' then
                        (case parse_value f ds of
                           Inl e \<Rightarrow> Inl e
                         | Inr p \<Rightarrow>
                             (case skip_ws (snd p) of
                                [] \<Rightarrow> Inl JsonSyntaxError
                              | x # xs \<Rightarrow>
                                  if x = CHR '','' then
                                    parse_members f (define_property acc (fst k) (fst p)) xs
                                  else if x = CHR ''}'' then
                                    Inr (JObj (define_property acc (fst k) (fst p)), xs)
                                  else Inl JsonSyntaxError))
                      else Inl JsonSyntaxError))
          else Inl JsonSyntaxError)"

definition json_parse :: "string \<Rightarrow> json_error + jsval" where
  "json_parse s =
     (case parse_value (Suc (length s)) s of
        Inl e \<Rightarrow> Inl e
      | Inr p \<Rightarrow> if skip_ws (snd p) = [] then Inr (fst p) else Inl JsonSyntaxError)"

subsection \<open>JSON values\<close>







section \<open>Parsing and templates\<close>



text \<open>\<^verbatim>\<open>createTemplate(appName = 'MyApp')\<close>, \<^verbatim>\<open>src/core.js\<close> lines 228--244.\<close>

definition createTemplate :: "jsval \<Rightarrow> error + jsval" where
  "createTemplate arg =
     (let appName = (if arg = JUndefined then JStr ''MyApp'' else arg)
      in bind_err (to_string appName) (\<lambda>appName_s.
           Inr (JObj
             [(''name'', appName),
              (''installers'', JObj
                 [(''darwin'', JStr (''https://github.com/user/repo/releases/latest/download/'' @ appName_s @ ''-macOS.dmg'')),
                  (''win32'', JStr (''https://github.com/user/repo/releases/latest/download/'' @ appName_s @ ''-windows.exe'')),
                  (''linux'', JStr (''https://github.com/user/repo/releases/latest/download/'' @ appName_s @ ''-linux.AppImage''))]),
              (''homepage'', JStr ''https://github.com/user/repo''),
              (''fallback'', JStr ''https://github.com/user/repo/releases''),
              (''badge'', JObj
                 [(''label'', JStr ''Install''),
                  (''color'', JStr ''#0366d6''),
                  (''style'', JStr ''flat'')])])))"

section \<open>Properties of OS detection\<close>

lemma includes_str_sublist: "includes_str s pat = sublist pat s"
  by (induction s) (simp_all add: sublist_Cons_right)

lemma to_lower_char_idem: "to_lower_char (to_lower_char c) = to_lower_char c"
proof -
  have "(of_char c :: nat) < 256" by simp
  then show ?thesis
    by (auto simp add: to_lower_char_def Let_def)
qed

lemma detectOS_string:
  "detectOS (JStr s) =
     Inr (if sublist ''mac'' (map to_lower_char s) \<or> sublist ''darwin'' (map to_lower_char s)
             \<or> sublist ''iphone'' (map to_lower_char s) \<or> sublist ''ipad'' (map to_lower_char s)
          then ''darwin''
          else if sublist ''linux'' (map to_lower_char s) \<or> sublist ''android'' (map to_lower_char s)
          then ''linux''
          else if sublist ''win'' (map to_lower_char s)
          then ''win32''
          else ''unknown'')"
  by (cases s) (simp_all add: detectOS_def toLowerCase_def bind_err_def includes_str_sublist)

text \<open>
  Claim C2.  \<^verbatim>\<open>detectOS\<close> returns on \<^verbatim>\<open>undefined\<close>, on \<^verbatim>\<open>null\<close> and on every string, and
  never throws there.  A missing, \<^verbatim>\<open>null\<close> or empty user agent gives \<^verbatim>\<open>unknown\<close>.  A
  string is classified by the substrings of its lower-cased form, in the order
  \<^verbatim>\<open>mac\<close>/\<^verbatim>\<open>darwin\<close>/\<^verbatim>\<open>iphone\<close>/\<^verbatim>\<open>ipad\<close>, then \<^verbatim>\<open>linux\<close>/\<^verbatim>\<open>android\<close>, then \<^verbatim>\<open>win\<close>, and the
  result is one of the four identifiers.  The classification does not depend on the
  case of the letters, and a user agent that contains both \<^verbatim>\<open>darwin\<close> (in any case) and
  \<^verbatim>\<open>win\<close> is \<^verbatim>\<open>darwin\<close>.
\<close>

theorem detectOS_classifies:
  "detectOS JUndefined = Inr ''unknown''
   \<and> detectOS JNull = Inr ''unknown''
   \<and> detectOS (JStr []) = Inr ''unknown''
   \<and> detectOS (JStr s) =
       Inr (if sublist ''mac'' (map to_lower_char s) \<or> sublist ''darwin'' (map to_lower_char s)
               \<or> sublist ''iphone'' (map to_lower_char s) \<or> sublist ''ipad'' (map to_lower_char s)
            then ''darwin''
            else if sublist ''linux'' (map to_lower_char s) \<or> sublist ''android'' (map to_lower_char s)
            then ''linux''
            else if sublist ''win'' (map to_lower_char s)
            then ''win32''
            else ''unknown'')
   \<and> detectOS (JStr s) \<in> {Inr ''darwin'', Inr ''linux'', Inr ''win32'', Inr ''unknown''}
   \<and> detectOS (JStr (map to_lower_char s)) = detectOS (JStr s)
   \<and> detectOS (JStr (p @ ''DARWIN'' @ q @ ''win'' @ r)) = Inr ''darwin''"
proof -
  have low: "map to_lower_char ''DARWIN'' = ''darwin''"
    by code_simp
  have "sublist ''darwin'' (map to_lower_char (p @ ''DARWIN'' @ q @ ''win'' @ r))"
    unfolding map_append low by (rule sublist_appendI)
  then have ex: "detectOS (JStr (p @ ''DARWIN'' @ q @ ''win'' @ r)) = Inr ''darwin''"
    by (simp only: detectOS_string if_True simp_thms)
  have idem: "detectOS (JStr (map to_lower_char s)) = detectOS (JStr s)"
    by (simp only: detectOS_string map_map comp_def to_lower_char_idem)
  have rng: "detectOS (JStr s) \<in> {Inr ''darwin'', Inr ''linux'', Inr ''win32'', Inr ''unknown''}"
    by (simp only: detectOS_string) simp
  show ?thesis
    using detectOS_string [of s] ex idem rng
    by (simp add: detectOS_def)
qed

section \<open>Properties of validation\<close>

lemma get_truthy_no_TypeError: "truthy v \<Longrightarrow> get v k \<noteq> Inl TypeError"
  by (cases v) (auto simp add: get_def inherited_def split: option.splits)

lemma check_platforms_no_TypeError:
  "truthy installers \<Longrightarrow> check_platforms env installers ks errs \<noteq> Inl TypeError"
proof (induction ks arbitrary: errs)
  case Nil
  then show ?case by simp
next
  case (Cons k ks)
  then show ?case
    using get_truthy_no_TypeError [of installers k]
    by (cases "get installers k") (auto simp add: bind_err_def Let_def)
qed

lemma validateConfig_no_TypeError: "validateConfig env config \<noteq> Inl TypeError"
proof (cases "\<not> truthy config \<or> typeof config \<noteq> ''object''")
  case True
  then show ?thesis by (simp add: validateConfig_def)
next
  case False
  then have t: "truthy config" by simp
  show ?thesis
  proof (cases "get config ''name''")
    case (Inl e)
    then show ?thesis using get_truthy_no_TypeError [OF t, of "''name''"] False
      by (auto simp add: validateConfig_def bind_err_def)
  next
    case name: (Inr name)
    show ?thesis
    proof (cases "get config ''installers''")
      case (Inl e)
      then show ?thesis using get_truthy_no_TypeError [OF t, of "''installers''"] False name
        by (auto simp add: validateConfig_def bind_err_def Let_def)
    next
      case inst: (Inr installers)
      show ?thesis
      proof (cases "\<not> truthy installers \<or> typeof installers \<noteq> ''object''")
        case True
        then show ?thesis using False name inst
          by (auto simp add: validateConfig_def bind_err_def Let_def)
      next
        case obj: False
        then have ti: "truthy installers" by simp
        then have "object_keys installers = Inr (map fst (own_props installers))"
          by (cases installers) (simp_all add: object_keys_def)
        then show ?thesis
          using False name inst obj check_platforms_no_TypeError [OF ti]
          by (auto simp add: validateConfig_def bind_err_def Let_def split: sum.splits)
      qed
    qed
  qed
qed

lemma check_platforms_concat:
  "(\<And>k. k \<in> set ks \<Longrightarrow> get installers k = Inr (f k)) \<Longrightarrow>
   check_platforms env installers ks errs =
     Inr (errs @ concat (map (\<lambda>k. key_errors env k (f k)) ks))"
proof (induction ks arbitrary: errs)
  case Nil
  then show ?case by simp
next
  case (Cons k ks)
  have g: "get installers k = Inr (f k)" using Cons.prems by simp
  have rest: "\<And>e. check_platforms env installers ks e =
     Inr (e @ concat (map (\<lambda>k. key_errors env k (f k)) ks))"
    using Cons.IH Cons.prems by simp
  show ?case
    by (simp add: g rest bind_err_def Let_def key_errors_def)
qed

lemma show_nat_digits: "list_all ascii_digit (show_nat n)"
proof (induction n rule: show_nat.induct)
  case (1 n)
  show ?case
  proof (cases "n < 10")
    case True
    then show ?thesis by (subst show_nat.simps) (simp add: ascii_digit_def)
  next
    case False
    have "n mod 10 < 10" by simp
    then have "ascii_digit (char_of (48 + n mod 10))"
      by (simp add: ascii_digit_def)
    with 1 False show ?thesis by (subst show_nat.simps) simp
  qed
qed

lemma not_digits_not_index:
  "\<not> list_all ascii_digit k \<Longrightarrow> map_of (zip (map show_nat [0..<n]) ys) k = None"
proof -
  assume nd: "\<not> list_all ascii_digit k"
  have "k \<notin> set (map show_nat [0..<n])"
    using nd show_nat_digits by auto
  then have "k \<notin> fst ` set (zip (map show_nat [0..<n]) ys)"
    by (metis (no_types, lifting) image_iff set_zip_leftD prod.collapse)
  then show ?thesis by (simp add: map_of_eq_None_iff)
qed

lemma get_array_plain:
  "k \<in> set plain_names \<Longrightarrow> get (JArr xs) k = Inr JUndefined"
proof -
  assume k: "k \<in> set plain_names"
  then have nd: "\<not> list_all ascii_digit k"
    by (auto simp add: plain_names_def ascii_digit_def)
  from k have a: "k \<noteq> ''length''" "k \<notin> set object_prototype_names"
    by (auto simp add: plain_names_def object_prototype_names_def)
  have "get (JArr xs) k = inherited k"
    using a by (simp add: get_def not_digits_not_index [OF nd, of "length xs" xs])
  then show ?thesis
    using a k by (simp add: inherited_def)
qed

lemma get_own_key:
  assumes "truthy v" "typeof v = ''object''" "k \<in> set (map fst (own_props v))"
  shows "\<exists>x. get v k = Inr x"
proof (cases v)
  case (JObj kvs)
  then show ?thesis by (simp add: get_def split: option.splits)
next
  case (JArr xs)
  have "length (map show_nat [0..<length xs]) = length xs" by simp
  moreover have "k \<in> set (map show_nat [0..<length xs])"
    using assms(3) JArr by (simp del: set_map map_map add: map_fst_zip)
  ultimately obtain y where "map_of (zip (map show_nat [0..<length xs]) xs) k = Some y"
    using map_of_zip_is_Some by metis
  then show ?thesis using JArr by (simp add: get_def)
next
  case (JBuiltin b)
  then show ?thesis using assms by simp
qed (use assms in simp_all)

lemma validateConfig_object:
  assumes obj: "truthy config" "typeof config = ''object''"
    and name: "get config ''name'' = Inr name"
    and inst: "get config ''installers'' = Inr installers"
  shows "\<exists>errs. validateConfig env config = Inr \<lparr>valid = (errs = []), errors = errs\<rparr>"
proof (cases "\<not> truthy installers \<or> typeof installers \<noteq> ''object''")
  case True
  then show ?thesis using obj name inst
    by (auto simp add: validateConfig_def bind_err_def Let_def)
next
  case False
  then have ti: "truthy installers" and oi: "typeof installers = ''object''" by simp_all
  have keys: "object_keys installers = Inr (map fst (own_props installers))"
    using ti by (cases installers) (simp_all add: object_keys_def)
  define f where "f k = (case get installers k of Inr x \<Rightarrow> x | Inl e \<Rightarrow> JUndefined)" for k
  have "get installers k = Inr (f k)" if kk: "k \<in> set (map fst (own_props installers))" for k
  proof -
    obtain x where "get installers k = Inr x"
      using get_own_key [OF ti oi kk] by blast
    then show ?thesis by (simp add: f_def)
  qed
  then have "\<And>e. check_platforms env installers (map fst (own_props installers)) e =
     Inr (e @ concat (map (\<lambda>k. key_errors env k (f k)) (map fst (own_props installers))))"
    by (rule check_platforms_concat)
  then show ?thesis using obj name inst False keys
    by (simp add: validateConfig_def bind_err_def Let_def del: map_map)
qed

lemma validateConfig_valid_iff:
  "validateConfig env c = Inr r \<Longrightarrow> valid r = (errors r = [])"
  by (auto simp add: validateConfig_def bind_err_def Let_def split: if_splits sum.splits)

lemma get_object: "get (JObj kvs) k = Inr (read_object kvs k)"
  by (simp add: get_def)

text \<open>
  Claim C3.  A candidate that is not a non-null object (\<^verbatim>\<open>undefined\<close>, \<^verbatim>\<open>null\<close>, a boolean,
  a number, a string, a function) gets exactly the one error
  \<^verbatim>\<open>Config must be an object\<close> and nothing else is checked.  On an object or an array the
  validator returns, and whenever it returns the result is valid if and only if its
  error list is empty.
\<close>

theorem validateConfig_object_check:
  "validateConfig env JUndefined = Inr \<lparr>valid = False, errors = [''Config must be an object'']\<rparr>
   \<and> validateConfig env JNull = Inr \<lparr>valid = False, errors = [''Config must be an object'']\<rparr>
   \<and> validateConfig env (JBool b) = Inr \<lparr>valid = False, errors = [''Config must be an object'']\<rparr>
   \<and> validateConfig env (JNum n) = Inr \<lparr>valid = False, errors = [''Config must be an object'']\<rparr>
   \<and> validateConfig env (JStr s) = Inr \<lparr>valid = False, errors = [''Config must be an object'']\<rparr>
   \<and> (k \<noteq> ''__proto__'' \<longrightarrow>
        validateConfig env (JBuiltin k) = Inr \<lparr>valid = False, errors = [''Config must be an object'']\<rparr>)
   \<and> (\<exists>errs. validateConfig env (JObj kvs) = Inr \<lparr>valid = (errs = []), errors = errs\<rparr>)
   \<and> (\<exists>errs. validateConfig env (JArr xs) = Inr \<lparr>valid = (errs = []), errors = errs\<rparr>)
   \<and> (validateConfig env c = Inr r \<longrightarrow> valid r = (errors r = []))"
proof -
  have prim: "validateConfig env JUndefined = Inr \<lparr>valid = False, errors = [''Config must be an object'']\<rparr>"
    "validateConfig env JNull = Inr \<lparr>valid = False, errors = [''Config must be an object'']\<rparr>"
    "validateConfig env (JBool b) = Inr \<lparr>valid = False, errors = [''Config must be an object'']\<rparr>"
    "validateConfig env (JNum n) = Inr \<lparr>valid = False, errors = [''Config must be an object'']\<rparr>"
    "validateConfig env (JStr s) = Inr \<lparr>valid = False, errors = [''Config must be an object'']\<rparr>"
    by (simp_all add: validateConfig_def)
  have fn: "k \<noteq> ''__proto__'' \<longrightarrow>
        validateConfig env (JBuiltin k) = Inr \<lparr>valid = False, errors = [''Config must be an object'']\<rparr>"
    by (simp add: validateConfig_def)
  have obj: "\<exists>errs. validateConfig env (JObj kvs) = Inr \<lparr>valid = (errs = []), errors = errs\<rparr>"
    by (rule validateConfig_object [OF _ _ get_object get_object]) simp_all
  have arr: "\<exists>errs. validateConfig env (JArr xs) = Inr \<lparr>valid = (errs = []), errors = errs\<rparr>"
    by (rule validateConfig_object [OF _ _ get_array_plain get_array_plain])
       (simp_all add: plain_names_def)
  have iff: "validateConfig env c = Inr r \<longrightarrow> valid r = (errors r = [])"
    using validateConfig_valid_iff by blast
  show ?thesis
    using prim fn obj arr iff by blast
qed

theorem validateConfig_object_check_witness:
  "''toString'' \<noteq> ''__proto__''
   \<and> validateConfig plain_env (JBuiltin ''toString'')
       = Inr \<lparr>valid = False, errors = [''Config must be an object'']\<rparr>
   \<and> validateConfig plain_env (JObj [(''name'', JStr ''App'')])
       = Inr \<lparr>valid = False, errors = [''installers is required and must be an object'']\<rparr>
   \<and> valid \<lparr>valid = False, errors = [''installers is required and must be an object'']\<rparr>
       = (errors \<lparr>valid = False, errors = [''installers is required and must be an object'']\<rparr> = [])"
proof -
  have ne: "''toString'' \<noteq> ''__proto__''" by simp
  have ev: "validateConfig plain_env (JObj [(''name'', JStr ''App'')])
       = Inr \<lparr>valid = False, errors = [''installers is required and must be an object'']\<rparr>"
    by code_simp
  show ?thesis
    using ne ev
      validateConfig_object_check [where env = plain_env and k = "''toString''"
        and c = "JObj [(''name'', JStr ''App'')]"
        and r = "\<lparr>valid = False, errors = [''installers is required and must be an object'']\<rparr>"]
    by blast
qed

text \<open>
  Claim C4.  For a configuration whose \<^verbatim>\<open>installers\<close> is a non-empty object, the errors
  are those of the name check followed by the errors of every key, in key order; no key
  is skipped because an earlier one failed.  The two checks of a key are independent: a
  key that is not a platform and whose value is not a valid URL contributes exactly
  two errors, the platform one first.
\<close>

theorem validateConfig_checks_every_key:
  "get (JObj c) ''name'' = Inr name \<and> get (JObj c) ''installers'' = Inr (JObj kvs)
     \<and> kvs \<noteq> [] \<and> distinct (map fst kvs) \<longrightarrow>
   validateConfig env (JObj c) =
     (let errs =
            (if truthy name \<and> typeof name = ''string'' then []
             else [''name is required and must be a string''])
            @ concat (map (\<lambda>(k, v). key_errors env k v) kvs)
      in Inr \<lparr>valid = (errs = []), errors = errs\<rparr>)
   \<and> (k \<notin> set PLATFORM_ORDER \<and> \<not> isValidURL env v \<longrightarrow>
        key_errors env k v =
          [''invalid platform: '' @ k @ '' (must be darwin, win32, or linux)'',
           ''installer for '' @ k @ '' must be a valid HTTP(S) URL''])"
proof (intro impI conjI)
  assume a: "get (JObj c) ''name'' = Inr name \<and> get (JObj c) ''installers'' = Inr (JObj kvs)
     \<and> kvs \<noteq> [] \<and> distinct (map fst kvs)"
  then have d: "distinct (map fst kvs)" by simp
  define f where "f k = (case map_of kvs k of Some x \<Rightarrow> x | None \<Rightarrow> JUndefined)" for k
  have g: "\<And>k. k \<in> set (map fst kvs) \<Longrightarrow> get (JObj kvs) k = Inr (f k)"
    by (auto simp add: get_def read_object_def f_def split: option.splits dest: weak_map_of_SomeI)
  have cp: "\<And>e. check_platforms env (JObj kvs) (map fst kvs) e =
      Inr (e @ concat (map (\<lambda>k. key_errors env k (f k)) (map fst kvs)))"
    using g by (rule check_platforms_concat)
  have eq: "map (\<lambda>k. key_errors env k (f k)) (map fst kvs) = map (\<lambda>(k, v). key_errors env k v) kvs"
    unfolding map_map using d by (intro map_cong) (auto simp add: f_def)
  have cp': "\<And>e. check_platforms env (JObj kvs) (map fst kvs) e =
      Inr (e @ concat (map (\<lambda>(k, v). key_errors env k v) kvs))"
    by (simp only: cp eq)
  show "validateConfig env (JObj c) =
     (let errs =
            (if truthy name \<and> typeof name = ''string'' then []
             else [''name is required and must be a string''])
            @ concat (map (\<lambda>(k, v). key_errors env k v) kvs)
      in Inr \<lparr>valid = (errs = []), errors = errs\<rparr>)"
    using a cp'
    by (simp add: validateConfig_def bind_err_def object_keys_def Let_def del: map_map)
next
  assume "k \<notin> set PLATFORM_ORDER \<and> \<not> isValidURL env v"
  then show "key_errors env k v =
          [''invalid platform: '' @ k @ '' (must be darwin, win32, or linux)'',
           ''installer for '' @ k @ '' must be a valid HTTP(S) URL'']"
    by (simp add: key_errors_def)
qed

theorem validateConfig_checks_every_key_witness:
  "get (JObj [(''name'', JStr ''App''),
              (''installers'', JObj [(''windows'', JStr ''nope''),
                                     (''darwin'', JStr ''https://example.com/app.dmg'')])]) ''name''
     = Inr (JStr ''App'')
   \<and> get (JObj [(''name'', JStr ''App''),
              (''installers'', JObj [(''windows'', JStr ''nope''),
                                     (''darwin'', JStr ''https://example.com/app.dmg'')])]) ''installers''
     = Inr (JObj [(''windows'', JStr ''nope''), (''darwin'', JStr ''https://example.com/app.dmg'')])
   \<and> distinct (map fst [(''windows'', JStr ''nope''), (''darwin'', JStr ''https://example.com/app.dmg'')])
   \<and> ''windows'' \<notin> set PLATFORM_ORDER
   \<and> \<not> isValidURL plain_env (JStr ''nope'')
   \<and> validateConfig plain_env
        (JObj [(''name'', JStr ''App''),
               (''installers'', JObj [(''windows'', JStr ''nope''),
                                      (''darwin'', JStr ''https://example.com/app.dmg'')])])
     = Inr \<lparr>valid = False,
            errors = [''invalid platform: windows (must be darwin, win32, or linux)'',
                      ''installer for windows must be a valid HTTP(S) URL'']\<rparr>"
proof -
  let ?kvs = "[(''windows'', JStr ''nope''), (''darwin'', JStr ''https://example.com/app.dmg'')]"
  let ?c = "[(''name'', JStr ''App''), (''installers'', JObj ?kvs)]"
  have h1: "get (JObj ?c) ''name'' = Inr (JStr ''App'')" by code_simp
  have h2: "get (JObj ?c) ''installers'' = Inr (JObj ?kvs)" by code_simp
  have h3: "?kvs \<noteq> []" by simp
  have h4: "distinct (map fst ?kvs)" by simp
  have h5: "''windows'' \<notin> set PLATFORM_ORDER" by (simp add: PLATFORM_ORDER_def)
  have h6: "\<not> isValidURL plain_env (JStr ''nope'')" by code_simp
  have h7: "isValidURL plain_env (JStr ''https://example.com/app.dmg'')" by code_simp
  have k1: "key_errors plain_env ''windows'' (JStr ''nope'') =
          [''invalid platform: '' @ ''windows'' @ '' (must be darwin, win32, or linux)'',
           ''installer for '' @ ''windows'' @ '' must be a valid HTTP(S) URL'']"
    and eq: "validateConfig plain_env (JObj ?c) =
     (let errs =
            (if truthy (JStr ''App'') \<and> typeof (JStr ''App'') = ''string'' then []
             else [''name is required and must be a string''])
            @ concat (map (\<lambda>(k, v). key_errors plain_env k v) ?kvs)
      in Inr \<lparr>valid = (errs = []), errors = errs\<rparr>)"
    using validateConfig_checks_every_key [where env = plain_env and c = ?c and kvs = ?kvs
        and name = "JStr ''App''" and k = "''windows''" and v = "JStr ''nope''"]
      h1 h2 h3 h4 h5 h6 by blast+
  have k2: "key_errors plain_env ''darwin'' (JStr ''https://example.com/app.dmg'') = []"
    using h7 by (simp add: key_errors_def PLATFORM_ORDER_def)
  have "validateConfig plain_env (JObj ?c)
     = Inr \<lparr>valid = False,
            errors = [''invalid platform: windows (must be darwin, win32, or linux)'',
                      ''installer for windows must be a valid HTTP(S) URL'']\<rparr>"
    unfolding eq by (simp add: k1 k2)
  then show ?thesis using h1 h2 h4 h5 h6 by blast
qed

text \<open>
  Claim C9.  Two objects that agree on \<^verbatim>\<open>name\<close> and on \<^verbatim>\<open>installers\<close> get the same
  validation result.  In particular, setting \<^verbatim>\<open>homepage\<close>, \<^verbatim>\<open>fallback\<close> and \<^verbatim>\<open>badge\<close> to
  any values at all does not change the result.
\<close>

theorem validateConfig_reads_name_and_installers:
  "(truthy c1 \<and> typeof c1 = ''object'' \<and> truthy c2 \<and> typeof c2 = ''object''
      \<and> get c1 ''name'' = get c2 ''name'' \<and> get c1 ''installers'' = get c2 ''installers''
    \<longrightarrow> validateConfig env c1 = validateConfig env c2)
   \<and> validateConfig env
        (JObj (AList.update ''homepage'' h (AList.update ''fallback'' f (AList.update ''badge'' b c))))
      = validateConfig env (JObj c)"
proof -
  have one: "(truthy c1 \<and> typeof c1 = ''object'' \<and> truthy c2 \<and> typeof c2 = ''object''
      \<and> get c1 ''name'' = get c2 ''name'' \<and> get c1 ''installers'' = get c2 ''installers''
    \<longrightarrow> validateConfig env c1 = validateConfig env c2)" for c1 c2
    by (simp add: validateConfig_def)
  have two: "validateConfig env
        (JObj (AList.update ''homepage'' h (AList.update ''fallback'' f (AList.update ''badge'' b c))))
      = validateConfig env (JObj c)"
    by (rule one [rule_format]) (simp add: get_def read_object_def update_conv')
  show ?thesis using one two by blast
qed

theorem validateConfig_reads_name_and_installers_witness:
  "truthy (JObj [(''name'', JStr ''App''),
                 (''installers'', JObj [(''linux'', JStr ''file:///opt/app'')])])
   \<and> typeof (JArr []) = ''object''
   \<and> get (JObj [(''installers'', JObj [(''linux'', JStr ''file:///opt/app'')]),
               (''badge'', JNum 7), (''name'', JStr ''App'')]) ''name''
       = get (JObj [(''name'', JStr ''App''),
                    (''installers'', JObj [(''linux'', JStr ''file:///opt/app'')])]) ''name''
   \<and> validateConfig plain_env
         (JObj [(''installers'', JObj [(''linux'', JStr ''file:///opt/app'')]),
                (''badge'', JNum 7), (''name'', JStr ''App'')])
       = validateConfig plain_env
           (JObj [(''name'', JStr ''App''),
                  (''installers'', JObj [(''linux'', JStr ''file:///opt/app'')])])
   \<and> validateConfig plain_env
         (JObj (AList.update ''homepage'' (JStr ''not a url'')
                 (AList.update ''fallback'' (JNum 5)
                   (AList.update ''badge'' (JArr [JBool True])
                     [(''name'', JStr ''App''),
                      (''installers'', JObj [(''linux'', JStr ''file:///opt/app'')]),
                      (''homepage'', JStr ''https://example.com'')]))))
       = Inr \<lparr>valid = True, errors = []\<rparr>"
proof -
  let ?i = "JObj [(''linux'', JStr ''file:///opt/app'')]"
  let ?c1 = "JObj [(''installers'', ?i), (''badge'', JNum 7), (''name'', JStr ''App'')]"
  let ?c2 = "JObj [(''name'', JStr ''App''), (''installers'', ?i)]"
  let ?c3 = "[(''name'', JStr ''App''), (''installers'', ?i), (''homepage'', JStr ''https://example.com'')]"
  have o: "truthy ?c1" "typeof ?c1 = ''object''" "truthy ?c2" "typeof ?c2 = ''object''"
    "typeof (JArr []) = ''object''"
    by simp_all
  have g: "get ?c1 ''name'' = get ?c2 ''name''" "get ?c1 ''installers'' = get ?c2 ''installers''"
    by (simp_all add: get_def read_object_def)
  have v: "validateConfig plain_env (JObj ?c3) = Inr \<lparr>valid = True, errors = []\<rparr>"
    by code_simp
  show ?thesis
    using o g v
      validateConfig_reads_name_and_installers [where env = plain_env and ?c1.0 = ?c1
        and ?c2.0 = ?c2 and h = "JStr ''not a url''" and f = "JNum 5"
        and b = "JArr [JBool True]" and c = ?c3]
    by simp
qed

section \<open>Properties of the template\<close>

lemma github_host: "host_parses env False ''github.com''"
  by code_simp

lemma strip_unchanged:
  "xs \<noteq> [] \<Longrightarrow> \<not> P (hd xs) \<Longrightarrow> \<not> P (last xs) \<Longrightarrow>
   rev (dropWhile P (rev (dropWhile P xs))) = xs"
proof -
  assume a: "xs \<noteq> []" "\<not> P (hd xs)" "\<not> P (last xs)"
  then have 1: "dropWhile P xs = xs" by (cases xs) simp_all
  from a have "rev xs \<noteq> []" "\<not> P (hd (rev xs))" by (simp_all add: hd_rev)
  then have "dropWhile P (rev xs) = rev xs" by (cases "rev xs") simp_all
  with 1 show ?thesis by simp
qed

lemma template_url_parses:
  assumes suf: "suf \<noteq> []" "\<not> is_c0_or_space (last suf)" "list_all (\<lambda>c. \<not> is_tab_or_newline c) suf"
  shows "url_parses env (''https://github.com/user/repo/releases/latest/download/'' @ s @ suf)"
proof -
  let ?pre = "''https://github.com/user/repo/releases/latest/download/''"
  let ?u = "?pre @ s @ suf"
  have l: "last ?u = last suf" using suf(1) by simp
  have "rev (dropWhile is_c0_or_space (rev (dropWhile is_c0_or_space ?u))) = ?u"
    by (rule strip_unchanged) (use suf l in \<open>simp_all add: is_c0_or_space_def\<close>)
  moreover have "filter (\<lambda>c. \<not> is_tab_or_newline c) suf = suf"
    using suf(3) by (simp add: list_all_iff)
  then have "filter (\<lambda>c. \<not> is_tab_or_newline c) ?u
      = ?pre @ filter (\<lambda>c. \<not> is_tab_or_newline c) s @ suf"
    by (simp add: is_tab_or_newline_def)
  moreover have "scheme_start_state env (?pre @ t)" for t
    by (simp add: scheme_start_state_def ascii_alpha_def ascii_upper_alpha_def
        ascii_lower_alpha_def ascii_lower_def ascii_digit_def after_scheme_def
        special_schemes_def is_slash_def is_authority_end_def github_host)
  ultimately show ?thesis
    by (simp only: url_parses_def)
qed

lemma template_installers_valid:
  "isValidURL env (JStr (''https://github.com/user/repo/releases/latest/download/'' @ s @ ''-macOS.dmg''))"
  "isValidURL env (JStr (''https://github.com/user/repo/releases/latest/download/'' @ s @ ''-windows.exe''))"
  "isValidURL env (JStr (''https://github.com/user/repo/releases/latest/download/'' @ s @ ''-linux.AppImage''))"
  unfolding isValidURL_def typeof.simps jsval.case
  by (simp_all only: simp_thms if_False, rule_tac [!] template_url_parses)
     (simp_all add: is_c0_or_space_def is_tab_or_newline_def)

text \<open>
  Claim C8.  For every non-empty string \<^verbatim>\<open>appName\<close>, \<^verbatim>\<open>createTemplate(appName)\<close> returns a
  configuration that \<^verbatim>\<open>validateConfig\<close> accepts with no error.  Its name is \<^verbatim>\<open>appName\<close>;
  its installers are exactly \<^verbatim>\<open>darwin\<close>, \<^verbatim>\<open>win32\<close> and \<^verbatim>\<open>linux\<close>, in this order, each
  with a URL that the URL parser accepts whatever characters \<^verbatim>\<open>appName\<close> contains;
  and it has the fixed homepage, fallback and badge fields.
\<close>

theorem createTemplate_valid:
  "s \<noteq> [] \<longrightarrow>
   (\<exists>cfg installers.
      createTemplate (JStr s) = Inr cfg
      \<and> validateConfig env cfg = Inr \<lparr>valid = True, errors = []\<rparr>
      \<and> get cfg ''name'' = Inr (JStr s)
      \<and> get cfg ''installers'' = Inr installers
      \<and> object_keys installers = Inr [''darwin'', ''win32'', ''linux'']
      \<and> get installers ''darwin''
          = Inr (JStr (''https://github.com/user/repo/releases/latest/download/'' @ s @ ''-macOS.dmg''))
      \<and> get installers ''win32''
          = Inr (JStr (''https://github.com/user/repo/releases/latest/download/'' @ s @ ''-windows.exe''))
      \<and> get installers ''linux''
          = Inr (JStr (''https://github.com/user/repo/releases/latest/download/'' @ s @ ''-linux.AppImage''))
      \<and> isValidURL env (JStr (''https://github.com/user/repo/releases/latest/download/'' @ s @ ''-macOS.dmg''))
      \<and> isValidURL env (JStr (''https://github.com/user/repo/releases/latest/download/'' @ s @ ''-windows.exe''))
      \<and> isValidURL env (JStr (''https://github.com/user/repo/releases/latest/download/'' @ s @ ''-linux.AppImage''))
      \<and> get cfg ''homepage'' = Inr (JStr ''https://github.com/user/repo'')
      \<and> get cfg ''fallback'' = Inr (JStr ''https://github.com/user/repo/releases'')
      \<and> get cfg ''badge''
          = Inr (JObj [(''label'', JStr ''Install''), (''color'', JStr ''#0366d6''),
                       (''style'', JStr ''flat'')]))"
proof
  assume ne: "s \<noteq> []"
  define d where "d = JStr (''https://github.com/user/repo/releases/latest/download/'' @ s @ ''-macOS.dmg'')"
  define w where "w = JStr (''https://github.com/user/repo/releases/latest/download/'' @ s @ ''-windows.exe'')"
  define l where "l = JStr (''https://github.com/user/repo/releases/latest/download/'' @ s @ ''-linux.AppImage'')"
  define i where "i = JObj [(''darwin'', d), (''win32'', w), (''linux'', l)]"
  define b where "b = JObj [(''label'', JStr ''Install''), (''color'', JStr ''#0366d6''),
                       (''style'', JStr ''flat'')]"
  define cfg where "cfg = JObj
     [(''name'', JStr s), (''installers'', i),
      (''homepage'', JStr ''https://github.com/user/repo''),
      (''fallback'', JStr ''https://github.com/user/repo/releases''),
      (''badge'', b)]"
  have u: "isValidURL env d" "isValidURL env w" "isValidURL env l"
    unfolding d_def w_def l_def by (rule template_installers_valid)+
  have c: "createTemplate (JStr s) = Inr cfg"
    by (simp add: createTemplate_def to_string_def bind_err_def cfg_def i_def b_def d_def w_def l_def)
  have g: "get cfg ''name'' = Inr (JStr s)" "get cfg ''installers'' = Inr i"
    "get cfg ''homepage'' = Inr (JStr ''https://github.com/user/repo'')"
    "get cfg ''fallback'' = Inr (JStr ''https://github.com/user/repo/releases'')"
    "get cfg ''badge'' = Inr b"
    by (simp_all add: get_def read_object_def cfg_def)
  have gi: "get i ''darwin'' = Inr d" "get i ''win32'' = Inr w" "get i ''linux'' = Inr l"
    by (simp_all add: get_def read_object_def i_def)
  have k: "object_keys i = Inr [''darwin'', ''win32'', ''linux'']"
    by (simp add: object_keys_def i_def)
  have ti: "truthy i" "typeof i = ''object''" "truthy cfg" "typeof cfg = ''object''"
    by (simp_all add: i_def cfg_def)
  have v: "validateConfig env cfg = Inr \<lparr>valid = True, errors = []\<rparr>"
    by (simp add: validateConfig_def g k bind_err_def gi u PLATFORM_ORDER_def ne ti)
  have "createTemplate (JStr s) = Inr cfg
      \<and> validateConfig env cfg = Inr \<lparr>valid = True, errors = []\<rparr>
      \<and> get cfg ''name'' = Inr (JStr s)
      \<and> get cfg ''installers'' = Inr i
      \<and> object_keys i = Inr [''darwin'', ''win32'', ''linux'']
      \<and> get i ''darwin'' = Inr d \<and> get i ''win32'' = Inr w \<and> get i ''linux'' = Inr l
      \<and> isValidURL env d \<and> isValidURL env w \<and> isValidURL env l
      \<and> get cfg ''homepage'' = Inr (JStr ''https://github.com/user/repo'')
      \<and> get cfg ''fallback'' = Inr (JStr ''https://github.com/user/repo/releases'')
      \<and> get cfg ''badge'' = Inr b"
    using c v g gi k u by simp
  then show "\<exists>cfg installers.
      createTemplate (JStr s) = Inr cfg
      \<and> validateConfig env cfg = Inr \<lparr>valid = True, errors = []\<rparr>
      \<and> get cfg ''name'' = Inr (JStr s)
      \<and> get cfg ''installers'' = Inr installers
      \<and> object_keys installers = Inr [''darwin'', ''win32'', ''linux'']
      \<and> get installers ''darwin''
          = Inr (JStr (''https://github.com/user/repo/releases/latest/download/'' @ s @ ''-macOS.dmg''))
      \<and> get installers ''win32''
          = Inr (JStr (''https://github.com/user/repo/releases/latest/download/'' @ s @ ''-windows.exe''))
      \<and> get installers ''linux''
          = Inr (JStr (''https://github.com/user/repo/releases/latest/download/'' @ s @ ''-linux.AppImage''))
      \<and> isValidURL env (JStr (''https://github.com/user/repo/releases/latest/download/'' @ s @ ''-macOS.dmg''))
      \<and> isValidURL env (JStr (''https://github.com/user/repo/releases/latest/download/'' @ s @ ''-windows.exe''))
      \<and> isValidURL env (JStr (''https://github.com/user/repo/releases/latest/download/'' @ s @ ''-linux.AppImage''))
      \<and> get cfg ''homepage'' = Inr (JStr ''https://github.com/user/repo'')
      \<and> get cfg ''fallback'' = Inr (JStr ''https://github.com/user/repo/releases'')
      \<and> get cfg ''badge''
          = Inr (JObj [(''label'', JStr ''Install''), (''color'', JStr ''#0366d6''),
                       (''style'', JStr ''flat'')])"
    unfolding d_def w_def l_def b_def by blast
qed

theorem createTemplate_valid_witness:
  "''My App'' \<noteq> []
   \<and> createTemplate (JStr ''My App'') =
       Inr (JObj
         [(''name'', JStr ''My App''),
          (''installers'', JObj
             [(''darwin'', JStr ''https://github.com/user/repo/releases/latest/download/My App-macOS.dmg''),
              (''win32'', JStr ''https://github.com/user/repo/releases/latest/download/My App-windows.exe''),
              (''linux'', JStr ''https://github.com/user/repo/releases/latest/download/My App-linux.AppImage'')]),
          (''homepage'', JStr ''https://github.com/user/repo''),
          (''fallback'', JStr ''https://github.com/user/repo/releases''),
          (''badge'', JObj [(''label'', JStr ''Install''), (''color'', JStr ''#0366d6''),
                           (''style'', JStr ''flat'')])])
   \<and> validateConfig plain_env
        (JObj
         [(''name'', JStr ''My App''),
          (''installers'', JObj
             [(''darwin'', JStr ''https://github.com/user/repo/releases/latest/download/My App-macOS.dmg''),
              (''win32'', JStr ''https://github.com/user/repo/releases/latest/download/My App-windows.exe''),
              (''linux'', JStr ''https://github.com/user/repo/releases/latest/download/My App-linux.AppImage'')]),
          (''homepage'', JStr ''https://github.com/user/repo''),
          (''fallback'', JStr ''https://github.com/user/repo/releases''),
          (''badge'', JObj [(''label'', JStr ''Install''), (''color'', JStr ''#0366d6''),
                           (''style'', JStr ''flat'')])])
       = Inr \<lparr>valid = True, errors = []\<rparr>"
proof -
  have ne: "''My App'' \<noteq> []" by simp
  have c: "createTemplate (JStr ''My App'') =
       Inr (JObj
         [(''name'', JStr ''My App''),
          (''installers'', JObj
             [(''darwin'', JStr ''https://github.com/user/repo/releases/latest/download/My App-macOS.dmg''),
              (''win32'', JStr ''https://github.com/user/repo/releases/latest/download/My App-windows.exe''),
              (''linux'', JStr ''https://github.com/user/repo/releases/latest/download/My App-linux.AppImage'')]),
          (''homepage'', JStr ''https://github.com/user/repo''),
          (''fallback'', JStr ''https://github.com/user/repo/releases''),
          (''badge'', JObj [(''label'', JStr ''Install''), (''color'', JStr ''#0366d6''),
                           (''style'', JStr ''flat'')])])"
    by code_simp
  from createTemplate_valid [where s = "''My App''" and env = plain_env] ne
  obtain cfg where "createTemplate (JStr ''My App'') = Inr cfg"
    and "validateConfig plain_env cfg = Inr \<lparr>valid = True, errors = []\<rparr>"
    by blast
  with c ne show ?thesis by simp
qed

section \<open>Properties of install targets\<close>

text \<open>
  Claim C1, as stated, fails in three ways.  A \<^verbatim>\<open>fallback\<close> that is the empty string is
  not \<^verbatim>\<open>null\<close>, so \<^verbatim>\<open>??\<close> keeps it, but the code moves on to \<^verbatim>\<open>homepage\<close>.  An installer
  that is set to the empty string is set, but the code reports the platform as
  unavailable.  And for a platform string such as \<^verbatim>\<open>constructor\<close> the code finds the member
  that every object inherits and reports it as the URL, although the map has no such
  key.
\<close>

theorem getInstallTarget_spec_counterexample:
  "getInstallTarget (JObj [(''fallback'', JStr ''''), (''homepage'', JStr ''https://h'')]) ''darwin''
     = Inr (Unavailable ''darwin'' (JStr ''https://h''))
   \<and> getInstallTarget_spec [(''fallback'', JStr ''''), (''homepage'', JStr ''https://h'')] ''darwin''
     = Unavailable ''darwin'' (JStr '''')
   \<and> getInstallTarget (JObj [(''fallback'', JStr ''''), (''homepage'', JStr ''https://h'')]) ''darwin''
     \<noteq> Inr (getInstallTarget_spec [(''fallback'', JStr ''''), (''homepage'', JStr ''https://h'')] ''darwin'')
   \<and> getInstallTarget (JObj [(''installers'', JObj [(''darwin'', JStr '''')])]) ''darwin''
     = Inr (Unavailable ''darwin'' JNull)
   \<and> getInstallTarget_spec [(''installers'', JObj [(''darwin'', JStr '''')])] ''darwin''
     = Available ''darwin'' (JStr '''')
   \<and> getInstallTarget (JObj [(''installers'', JObj [(''darwin'', JStr ''https://a/b'')])]) ''constructor''
     = Inr (Available ''constructor'' (JBuiltin ''constructor''))
   \<and> getInstallTarget_spec [(''installers'', JObj [(''darwin'', JStr ''https://a/b'')])] ''constructor''
     = Unavailable ''constructor'' JNull"
  by (simp add: getInstallTarget_def getInstallTarget_spec_def get_def read_object_def
      bind_err_def js_or_def nullish_or_def object_prototype_names_def)

text \<open>
  Claim C1, amended.  Take a configuration object whose \<^verbatim>\<open>installers\<close> is an object, or
  is missing or otherwise falsy (then it counts as empty), and a platform string \<open>p\<close>
  that is not the name of a member of \<^verbatim>\<open>Object.prototype\<close> (the four identifiers that
  \<^verbatim>\<open>detectOS\<close> returns are not).  Then \<^verbatim>\<open>getInstallTarget\<close> returns and does not throw.
  The target is available, with \<^verbatim>\<open>url = installers[p]\<close>, if and only if \<open>p\<close> is a key of
  \<^verbatim>\<open>installers\<close> with a truthy value; otherwise it is unavailable and its fallback is
  \<^verbatim>\<open>config.fallback || config.homepage || null\<close>: the first truthy one of the two, else
  \<^verbatim>\<open>null\<close>.
\<close>

theorem getInstallTarget_truthy:
  "(read_object c ''installers'' = JObj m \<or> (\<not> truthy (read_object c ''installers'') \<and> m = []))
   \<and> p \<notin> set object_prototype_names \<longrightarrow>
     getInstallTarget (JObj c) p =
       Inr (case map_of m p of
              Some u \<Rightarrow>
                if truthy u then Available p u
                else Unavailable p
                       (js_or (read_object c ''fallback'') (js_or (read_object c ''homepage'') JNull))
            | None \<Rightarrow>
                Unavailable p
                  (js_or (read_object c ''fallback'') (js_or (read_object c ''homepage'') JNull)))
     \<and> ((\<exists>u. getInstallTarget (JObj c) p = Inr (Available p u))
          = (\<exists>u. map_of m p = Some u \<and> truthy u))"
proof
  assume a: "(read_object c ''installers'' = JObj m \<or> (\<not> truthy (read_object c ''installers'') \<and> m = []))
   \<and> p \<notin> set object_prototype_names"
  then have i: "js_or (read_object c ''installers'') (JObj []) = JObj m"
    by (auto simp add: js_or_def)
  have r: "read_object m p = (case map_of m p of Some u \<Rightarrow> u | None \<Rightarrow> JUndefined)"
    using a by (simp add: read_object_def)
  have main: "getInstallTarget (JObj c) p =
       Inr (if truthy (read_object m p) then Available p (read_object m p)
            else Unavailable p
                   (js_or (read_object c ''fallback'') (js_or (read_object c ''homepage'') JNull)))"
    apply (simp only: getInstallTarget_def get_object bind_err_def sum.case Let_def i)
    apply (simp add: js_or_def)
    done
  show "getInstallTarget (JObj c) p =
       Inr (case map_of m p of
              Some u \<Rightarrow>
                if truthy u then Available p u
                else Unavailable p
                       (js_or (read_object c ''fallback'') (js_or (read_object c ''homepage'') JNull))
            | None \<Rightarrow>
                Unavailable p
                  (js_or (read_object c ''fallback'') (js_or (read_object c ''homepage'') JNull)))
     \<and> ((\<exists>u. getInstallTarget (JObj c) p = Inr (Available p u))
          = (\<exists>u. map_of m p = Some u \<and> truthy u))"
    unfolding main r by (cases "map_of m p") auto
qed

theorem getInstallTarget_truthy_witness:
  "read_object [(''name'', JStr ''X''), (''installers'', JObj [(''darwin'', JStr ''https://a/b'')]),
                (''fallback'', JStr ''https://f'')] ''installers''
     = JObj [(''darwin'', JStr ''https://a/b'')]
   \<and> ''win32'' \<notin> set object_prototype_names
   \<and> ''darwin'' \<notin> set object_prototype_names
   \<and> getInstallTarget
        (JObj [(''name'', JStr ''X''), (''installers'', JObj [(''darwin'', JStr ''https://a/b'')]),
               (''fallback'', JStr ''https://f'')]) ''win32''
     = Inr (Unavailable ''win32'' (JStr ''https://f''))
   \<and> getInstallTarget
        (JObj [(''name'', JStr ''X''), (''installers'', JObj [(''darwin'', JStr ''https://a/b'')]),
               (''fallback'', JStr ''https://f'')]) ''darwin''
     = Inr (Available ''darwin'' (JStr ''https://a/b''))"
proof -
  let ?m = "[(''darwin'', JStr ''https://a/b'')]"
  let ?c = "[(''name'', JStr ''X''), (''installers'', JObj ?m), (''fallback'', JStr ''https://f'')]"
  have h: "read_object ?c ''installers'' = JObj ?m" by (simp add: read_object_def)
  have n: "''win32'' \<notin> set object_prototype_names" "''darwin'' \<notin> set object_prototype_names"
    by (simp_all add: object_prototype_names_def)
  have f: "js_or (read_object ?c ''fallback'') (js_or (read_object ?c ''homepage'') JNull) = JStr ''https://f''"
    by (simp add: read_object_def js_or_def)
  have "getInstallTarget (JObj ?c) ''darwin'' = Inr (Available ''darwin'' (JStr ''https://a/b''))"
    using getInstallTarget_truthy [where c = ?c and m = ?m and p = "''darwin''"] h n
    by simp
  moreover have "getInstallTarget (JObj ?c) ''win32'' = Inr (Unavailable ''win32'' (JStr ''https://f''))"
    using getInstallTarget_truthy [where c = ?c and m = ?m and p = "''win32''"] h n
    unfolding f by simp
  ultimately show ?thesis using h n by blast
qed

section \<open>Properties of snippets\<close>

lemma first_in_platform_order:
  "first_in_order (JObj m) PLATFORM_ORDER =
     Inr (if truthy (read_object m ''darwin'') then Some (read_object m ''darwin'')
          else if truthy (read_object m ''win32'') then Some (read_object m ''win32'')
          else if truthy (read_object m ''linux'') then Some (read_object m ''linux'')
          else None)"
  by (simp add: PLATFORM_ORDER_def get_object bind_err_def)

lemma getFirstInstaller_object:
  "getFirstInstaller (JObj m) =
     Inr (if truthy (read_object m ''darwin'') then read_object m ''darwin''
          else if truthy (read_object m ''win32'') then read_object m ''win32''
          else if truthy (read_object m ''linux'') then read_object m ''linux''
          else if truthy (case m of [] \<Rightarrow> JUndefined | kv # rest \<Rightarrow> snd kv)
          then (case m of [] \<Rightarrow> JUndefined | kv # rest \<Rightarrow> snd kv)
          else JNull)"
  by (cases m)
     (simp_all add: getFirstInstaller_def first_in_platform_order bind_err_def
       object_values_def js_or_def)

lemma getFirstInstaller_undefined: "getFirstInstaller JUndefined = getFirstInstaller (JObj [])"
  by (simp add: getFirstInstaller_def)

lemma target_url_object:
  assumes "read_object c ''installers'' = JObj m \<or> (read_object c ''installers'' = JUndefined \<and> m = [])"
  shows "target_url (JObj c) installURL =
     Inr (if truthy installURL then installURL
          else if truthy (read_object c ''homepage'') then read_object c ''homepage''
          else if truthy (read_object m ''darwin'') then read_object m ''darwin''
          else if truthy (read_object m ''win32'') then read_object m ''win32''
          else if truthy (read_object m ''linux'') then read_object m ''linux''
          else if truthy (case m of [] \<Rightarrow> JUndefined | kv # rest \<Rightarrow> snd kv)
          then (case m of [] \<Rightarrow> JUndefined | kv # rest \<Rightarrow> snd kv)
          else JNull)"
proof -
  have "getFirstInstaller (read_object c ''installers'') = getFirstInstaller (JObj m)"
    using assms getFirstInstaller_undefined by auto
  then show ?thesis
    by (simp add: target_url_def get_object bind_err_def getFirstInstaller_object)
qed

lemma generateSnippets_texts:
  assumes "target_url (JObj c) (if iu = JUndefined then JNull else iu) = Inr t"
    and "to_string (read_object c ''name'') = Inr n"
    and "to_string (if bp = JUndefined then JStr ''./install-badge.svg'' else bp) = Inr b"
    and "to_string t = Inr ts"
  shows "generateSnippets (JObj c) bp iu =
     Inr \<lparr>markdown = ''[![Install '' @ n @ '']('' @ b @ '')]('' @ ts @ '')'',
          html = ''<a href=\"'' @ ts @ ''\">'' @ nl @
                 ''  <img src=\"'' @ b @ ''\" alt=\"Install '' @ n @ ''\" />'' @ nl @
                 ''</a>''\<rparr>"
  using assms
  by (simp only: generateSnippets_def Let_def get_object bind_err_def sum.case)

text \<open>
  Claim C5.  For a configuration object whose \<^verbatim>\<open>installers\<close> is an object or is missing,
  the target URL of \<^verbatim>\<open>generateSnippets\<close> is the first truthy value among: the
  \<^verbatim>\<open>installURL\<close> argument, \<^verbatim>\<open>config.homepage\<close>, the installers of \<^verbatim>\<open>darwin\<close>, \<^verbatim>\<open>win32\<close> and
  \<^verbatim>\<open>linux\<close> in this order, and the first value of the installers map; it is \<^verbatim>\<open>null\<close> when
  there is none.  In particular, without an argument and without a homepage, a
  \<^verbatim>\<open>darwin\<close> installer is chosen over a \<^verbatim>\<open>linux\<close> one wherever the two stand in the map.
  The markdown is \<^verbatim>\<open>[![Install <name>](<badgePath>)](<targetURL>)\<close> and so contains
  \<^verbatim>\<open>[![Install <name>]\<close>.
\<close>

theorem generateSnippets_target_order:
  "(read_object c ''installers'' = JObj m \<or> (read_object c ''installers'' = JUndefined \<and> m = [])) \<longrightarrow>
     target_url (JObj c) (if iu = JUndefined then JNull else iu) =
       Inr (if truthy iu then iu
            else if truthy (read_object c ''homepage'') then read_object c ''homepage''
            else if truthy (read_object m ''darwin'') then read_object m ''darwin''
            else if truthy (read_object m ''win32'') then read_object m ''win32''
            else if truthy (read_object m ''linux'') then read_object m ''linux''
            else if truthy (case m of [] \<Rightarrow> JUndefined | kv # rest \<Rightarrow> snd kv)
            then (case m of [] \<Rightarrow> JUndefined | kv # rest \<Rightarrow> snd kv)
            else JNull)
     \<and> (\<not> truthy iu \<and> map_of c ''homepage'' = None \<and> map_of m ''darwin'' = Some d \<and> truthy d
          \<and> map_of m ''linux'' = Some l \<longrightarrow>
        target_url (JObj c) (if iu = JUndefined then JNull else iu) = Inr d)
     \<and> (target_url (JObj c) (if iu = JUndefined then JNull else iu) = Inr t
          \<and> to_string (read_object c ''name'') = Inr n
          \<and> to_string (if bp = JUndefined then JStr ''./install-badge.svg'' else bp) = Inr b
          \<and> to_string t = Inr ts \<longrightarrow>
        (\<exists>h. generateSnippets (JObj c) bp iu =
               Inr \<lparr>markdown = ''[![Install '' @ n @ '']('' @ b @ '')]('' @ ts @ '')'', html = h\<rparr>)
        \<and> sublist (''[![Install '' @ n @ '']'')
             (''[![Install '' @ n @ '']('' @ b @ '')]('' @ ts @ '')''))"
proof (intro impI conjI)
  assume a: "read_object c ''installers'' = JObj m \<or> (read_object c ''installers'' = JUndefined \<and> m = [])"
  have tr: "truthy (if iu = JUndefined then JNull else iu) = truthy iu" by simp
  have eq: "(if truthy iu then (if iu = JUndefined then JNull else iu) else x)
          = (if truthy iu then iu else x)" for x by auto
  show main: "target_url (JObj c) (if iu = JUndefined then JNull else iu) =
       Inr (if truthy iu then iu
            else if truthy (read_object c ''homepage'') then read_object c ''homepage''
            else if truthy (read_object m ''darwin'') then read_object m ''darwin''
            else if truthy (read_object m ''win32'') then read_object m ''win32''
            else if truthy (read_object m ''linux'') then read_object m ''linux''
            else if truthy (case m of [] \<Rightarrow> JUndefined | kv # rest \<Rightarrow> snd kv)
            then (case m of [] \<Rightarrow> JUndefined | kv # rest \<Rightarrow> snd kv)
            else JNull)"
    by (simp only: target_url_object [OF a] tr eq)
  {
    assume b: "\<not> truthy iu \<and> map_of c ''homepage'' = None \<and> map_of m ''darwin'' = Some d \<and> truthy d
          \<and> map_of m ''linux'' = Some l"
    then have "read_object c ''homepage'' = JUndefined" "read_object m ''darwin'' = d"
      by (simp_all add: read_object_def object_prototype_names_def)
    with b show "target_url (JObj c) (if iu = JUndefined then JNull else iu) = Inr d"
      by (simp add: main)
  }
next
  assume g: "target_url (JObj c) (if iu = JUndefined then JNull else iu) = Inr t
          \<and> to_string (read_object c ''name'') = Inr n
          \<and> to_string (if bp = JUndefined then JStr ''./install-badge.svg'' else bp) = Inr b
          \<and> to_string t = Inr ts"
  then show "\<exists>h. generateSnippets (JObj c) bp iu =
               Inr \<lparr>markdown = ''[![Install '' @ n @ '']('' @ b @ '')]('' @ ts @ '')'', html = h\<rparr>"
    using generateSnippets_texts [of c iu t n bp b ts] by blast
next
  have "''[![Install '' @ n @ '']('' @ b @ '')]('' @ ts @ '')''
      = (''[![Install '' @ n @ '']'') @ (''('' @ b @ '')]('' @ ts @ '')'')"
    by simp
  then show "sublist (''[![Install '' @ n @ '']'')
             (''[![Install '' @ n @ '']('' @ b @ '')]('' @ ts @ '')'')"
    by (simp only: sublist_append_rightI)
qed

theorem generateSnippets_target_order_witness:
  "read_object [(''name'', JStr ''TestApp''),
                (''installers'', JObj [(''linux'', JStr ''https://example.com/linux''),
                                       (''darwin'', JStr ''https://example.com/mac'')])] ''installers''
     = JObj [(''linux'', JStr ''https://example.com/linux''), (''darwin'', JStr ''https://example.com/mac'')]
   \<and> map_of [(''name'', JStr ''TestApp''),
             (''installers'', JObj [(''linux'', JStr ''https://example.com/linux''),
                                    (''darwin'', JStr ''https://example.com/mac'')])] ''homepage'' = None
   \<and> target_url
        (JObj [(''name'', JStr ''TestApp''),
               (''installers'', JObj [(''linux'', JStr ''https://example.com/linux''),
                                      (''darwin'', JStr ''https://example.com/mac'')])]) JNull
     = Inr (JStr ''https://example.com/mac'')
   \<and> (\<exists>h. generateSnippets
             (JObj [(''name'', JStr ''TestApp''),
                    (''installers'', JObj [(''linux'', JStr ''https://example.com/linux''),
                                           (''darwin'', JStr ''https://example.com/mac'')])])
             JUndefined JUndefined
           = Inr \<lparr>markdown = ''[![Install TestApp](./install-badge.svg)](https://example.com/mac)'',
                  html = h\<rparr>)"
proof -
  let ?m = "[(''linux'', JStr ''https://example.com/linux''), (''darwin'', JStr ''https://example.com/mac'')]"
  let ?c = "[(''name'', JStr ''TestApp''), (''installers'', JObj ?m)]"
  note t = generateSnippets_target_order [where c = ?c and m = ?m and iu = JUndefined
      and bp = JUndefined and d = "JStr ''https://example.com/mac''"
      and l = "JStr ''https://example.com/linux''" and t = "JStr ''https://example.com/mac''"
      and n = "''TestApp''" and b = "''./install-badge.svg''" and ts = "''https://example.com/mac''"]
  have i: "read_object ?c ''installers'' = JObj ?m" by (simp add: read_object_def)
  have hp: "map_of ?c ''homepage'' = None" by simp
  have o: "\<not> truthy JUndefined" "map_of ?m ''darwin'' = Some (JStr ''https://example.com/mac'')"
    "truthy (JStr ''https://example.com/mac'')"
    "map_of ?m ''linux'' = Some (JStr ''https://example.com/linux'')"
    "truthy (JStr ''https://example.com/linux'')"
    by simp_all
  have tu: "target_url (JObj ?c) JNull = Inr (JStr ''https://example.com/mac'')"
    using t i hp o by (simp add: read_object_def object_prototype_names_def)
  have s: "to_string (read_object ?c ''name'') = Inr ''TestApp''"
    "to_string (JStr ''./install-badge.svg'') = Inr ''./install-badge.svg''"
    "to_string (JStr ''https://example.com/mac'') = Inr ''https://example.com/mac''"
    by (simp_all add: to_string_def read_object_def)
  have "\<exists>h. generateSnippets (JObj ?c) JUndefined JUndefined
           = Inr \<lparr>markdown = ''[![Install '' @ ''TestApp'' @ '']('' @ ''./install-badge.svg'' @ '')](''
                               @ ''https://example.com/mac'' @ '')'',
                  html = h\<rparr>"
    using t i tu s by simp
  then show ?thesis using i hp tu by simp
qed

text \<open>
  Claim C10.  Without an \<^verbatim>\<open>installURL\<close> argument, on a configuration that has no (truthy)
  homepage and whose \<^verbatim>\<open>installers\<close> is empty or missing, the target URL is \<^verbatim>\<open>null\<close>, the
  markdown ends with \<^verbatim>\<open>](null)\<close> and the html contains \<^verbatim>\<open>href="null"\<close>.
\<close>

theorem generateSnippets_null_target:
  "\<not> truthy (read_object c ''homepage'')
   \<and> (read_object c ''installers'' = JObj [] \<or> read_object c ''installers'' = JUndefined)
   \<and> to_string (read_object c ''name'') = Inr n
   \<and> to_string (if bp = JUndefined then JStr ''./install-badge.svg'' else bp) = Inr b \<longrightarrow>
   target_url (JObj c) JNull = Inr JNull
   \<and> generateSnippets (JObj c) bp JUndefined =
       Inr \<lparr>markdown = ''[![Install '' @ n @ '']('' @ b @ '')]('' @ ''null'' @ '')'',
            html = ''<a href=\"'' @ ''null'' @ ''\">'' @ nl @
                   ''  <img src=\"'' @ b @ ''\" alt=\"Install '' @ n @ ''\" />'' @ nl @
                   ''</a>''\<rparr>
   \<and> suffix '')](null)'' (''[![Install '' @ n @ '']('' @ b @ '')]('' @ ''null'' @ '')'')
   \<and> sublist ''href=\"null\"''
        (''<a href=\"'' @ ''null'' @ ''\">'' @ nl @
         ''  <img src=\"'' @ b @ ''\" alt=\"Install '' @ n @ ''\" />'' @ nl @ ''</a>'')"
proof (intro impI conjI)
  assume a: "\<not> truthy (read_object c ''homepage'')
   \<and> (read_object c ''installers'' = JObj [] \<or> read_object c ''installers'' = JUndefined)
   \<and> to_string (read_object c ''name'') = Inr n
   \<and> to_string (if bp = JUndefined then JStr ''./install-badge.svg'' else bp) = Inr b"
  then have i: "read_object c ''installers'' = JObj [] \<or> (read_object c ''installers'' = JUndefined \<and> [] = ([] :: (string \<times> jsval) list))"
    by blast
  show t: "target_url (JObj c) JNull = Inr JNull"
    using a by (simp add: target_url_object [OF i] read_object_def object_prototype_names_def)
  show "generateSnippets (JObj c) bp JUndefined =
       Inr \<lparr>markdown = ''[![Install '' @ n @ '']('' @ b @ '')]('' @ ''null'' @ '')'',
            html = ''<a href=\"'' @ ''null'' @ ''\">'' @ nl @
                   ''  <img src=\"'' @ b @ ''\" alt=\"Install '' @ n @ ''\" />'' @ nl @
                   ''</a>''\<rparr>"
    by (rule generateSnippets_texts [where t = JNull]) (use a t in \<open>simp_all add: to_string_def\<close>)
next
  have "''[![Install '' @ n @ '']('' @ b @ '')]('' @ ''null'' @ '')'' = (''[![Install '' @ n @ '']('' @ b) @ '')](null)''"
    by simp
  then show "suffix '')](null)'' (''[![Install '' @ n @ '']('' @ b @ '')]('' @ ''null'' @ '')'')"
    by (simp only: suffix_def) blast
next
  have "''<a href=\"'' @ ''null'' @ ''\">'' @ nl @
         ''  <img src=\"'' @ b @ ''\" alt=\"Install '' @ n @ ''\" />'' @ nl @ ''</a>''
     = ''<a '' @ ''href=\"null\"'' @ (''>'' @ nl @
         ''  <img src=\"'' @ b @ ''\" alt=\"Install '' @ n @ ''\" />'' @ nl @ ''</a>'')"
    by simp
  then show "sublist ''href=\"null\"''
        (''<a href=\"'' @ ''null'' @ ''\">'' @ nl @
         ''  <img src=\"'' @ b @ ''\" alt=\"Install '' @ n @ ''\" />'' @ nl @ ''</a>'')"
    by (simp only: sublist_appendI)
qed

theorem generateSnippets_null_target_witness:
  "\<not> truthy (read_object [(''name'', JStr ''x''), (''installers'', JObj [])] ''homepage'')
   \<and> read_object [(''name'', JStr ''x''), (''installers'', JObj [])] ''installers'' = JObj []
   \<and> generateSnippets (JObj [(''name'', JStr ''x''), (''installers'', JObj [])]) JUndefined JUndefined
     = Inr \<lparr>markdown = ''[![Install x](./install-badge.svg)](null)'',
            html = ''<a href=\"null\">'' @ nl @
                   ''  <img src=\"./install-badge.svg\" alt=\"Install x\" />'' @ nl @ ''</a>''\<rparr>"
proof -
  let ?c = "[(''name'', JStr ''x''), (''installers'', JObj [])]"
  have h: "\<not> truthy (read_object ?c ''homepage'')" "read_object ?c ''installers'' = JObj []"
    "to_string (read_object ?c ''name'') = Inr ''x''"
    "to_string (if JUndefined = JUndefined then JStr ''./install-badge.svg'' else JUndefined)
       = Inr ''./install-badge.svg''"
    by (simp_all add: read_object_def object_prototype_names_def to_string_def)
  show ?thesis
    using generateSnippets_null_target [where c = ?c and n = "''x''" and bp = JUndefined
        and b = "''./install-badge.svg''"] h
    by simp
qed

section \<open>Properties of badges\<close>

lemma sublist_here: "sublist x (x @ r)"
  by (rule sublist_append_rightI)

lemma sublist_skip: "sublist x r \<Longrightarrow> sublist x (a @ r)"
  by (metis sublist_append)

lemma flat_badge_parts:
  "prefix (''<svg xmlns=\"http://www.w3.org/2000/svg\" width=\"'' @ tw @ ''\"'')
     (flat_badge tw lw nw lh nm col l a)"
  "sublist col (flat_badge tw lw nw lh nm col l a)"
  "sublist l (flat_badge tw lw nw lh nm col l a)"
  "sublist a (flat_badge tw lw nw lh nm col l a)"
proof -
  show "prefix (''<svg xmlns=\"http://www.w3.org/2000/svg\" width=\"'' @ tw @ ''\"'')
     (flat_badge tw lw nw lh nm col l a)"
    by (simp add: flat_badge_def)
  show "sublist col (flat_badge tw lw nw lh nm col l a)"
    unfolding flat_badge_def by (rule sublist_here | rule sublist_skip)+
  show "sublist l (flat_badge tw lw nw lh nm col l a)"
    unfolding flat_badge_def by (rule sublist_here | rule sublist_skip)+
  show "sublist a (flat_badge tw lw nw lh nm col l a)"
    unfolding flat_badge_def by (rule sublist_here | rule sublist_skip)+
qed

lemma plain_badge_parts:
  "prefix (''<svg xmlns=\"http://www.w3.org/2000/svg\" width=\"'' @ tw @ ''\"'')
     (plain_badge tw lw nw lh nm col l a)"
  "sublist col (plain_badge tw lw nw lh nm col l a)"
  "sublist l (plain_badge tw lw nw lh nm col l a)"
  "sublist a (plain_badge tw lw nw lh nm col l a)"
proof -
  show "prefix (''<svg xmlns=\"http://www.w3.org/2000/svg\" width=\"'' @ tw @ ''\"'')
     (plain_badge tw lw nw lh nm col l a)"
    by (simp add: plain_badge_def)
  show "sublist col (plain_badge tw lw nw lh nm col l a)"
    unfolding plain_badge_def by (rule sublist_here | rule sublist_skip)+
  show "sublist l (plain_badge tw lw nw lh nm col l a)"
    unfolding plain_badge_def by (rule sublist_here | rule sublist_skip)+
  show "sublist a (plain_badge tw lw nw lh nm col l a)"
    unfolding plain_badge_def by (rule sublist_here | rule sublist_skip)+
qed

lemma radix_value_snoc: "radix_value r (xs @ [c]) = radix_value r xs * r + digit_value c"
  by (simp add: radix_value_def)

lemma digit_value_digit: "d < 10 \<Longrightarrow> digit_value (char_of (48 + d)) = d"
  by (simp add: digit_value_def ascii_digit_def)

lemma radix_value_show_nat: "radix_value 10 (show_nat n) = n"
proof (induction n rule: show_nat.induct)
  case (1 n)
  show ?case
  proof (cases "n < 10")
    case True
    then show ?thesis
      using radix_value_snoc [of 10 "[]"] digit_value_digit [of n]
      by (subst show_nat.simps) (simp add: radix_value_def)
  next
    case False
    then have "radix_value 10 (show_nat (n div 10)) = n div 10" using 1 by simp
    moreover have "digit_value (char_of (48 + n mod 10)) = n mod 10"
      by (rule digit_value_digit) simp
    ultimately show ?thesis using False
      by (subst show_nat.simps) (simp add: radix_value_snoc)
  qed
qed

lemma generateBadge_strings:
  assumes nm: "read_object c ''name'' = JStr a"
    and bd: "read_object c ''badge'' = JObj b \<or> (\<not> truthy (read_object c ''badge'') \<and> b = [])"
    and lb: "js_or (read_object b ''label'') (JStr ''Install'') = JStr l"
    and cl: "js_or (read_object b ''color'') (JStr ''#0366d6'') = JStr col"
  shows "generateBadge (JObj c) =
     Inr ((if js_or (read_object b ''style'') (JStr ''flat'') = JStr ''flat''
           then flat_badge else plain_badge)
            (show_nat (length l * 6 + 10 + (length a * 7 + 10)))
            (show_nat (length l * 6 + 10)) (show_nat (length a * 7 + 10))
            (show_half (length l * 6 + 10))
            (show_half (2 * (length l * 6 + 10) + (length a * 7 + 10)))
            col l a)"
proof -
  have o: "js_or (read_object c ''badge'') (JObj []) = JObj b"
    using bd by (auto simp add: js_or_def)
  have len: "bind_err (get (JStr s) ''length'') to_nat = Inr (length s)" for s
  proof -
    have nd: "\<not> list_all ascii_digit ''length''" by (simp add: ascii_digit_def)
    have m: "map_of (own_props (JStr s)) ''length'' = None"
      unfolding own_props.simps by (rule not_digits_not_index [OF nd])
    have "get (JStr s) ''length'' = Inr (JNum (int (length s)))"
      unfolding get_def jsval.case m option.case by simp
    then show ?thesis by (simp add: bind_err_def to_nat_def)
  qed
  show ?thesis
    by (simp only: generateBadge_def get_object bind_err_def [where m = "Inr x" for x] sum.case
        Let_def o nm lb cl len to_string_def jsval.case)
qed

text \<open>
  Claim C7.  For a configuration object whose name is a string, whose \<^verbatim>\<open>badge\<close> is an
  object or missing, and whose label and color are strings or missing (then \<^verbatim>\<open>Install\<close>
  and \<^verbatim>\<open>#0366d6\<close>; a missing style is \<^verbatim>\<open>flat\<close>), \<^verbatim>\<open>generateBadge\<close> returns one of the two
  templates, filled in with \<open>labelWidth = len(label) * 6 + 10\<close>,
  \<open>nameWidth = len(name) * 7 + 10\<close> and \<open>totalWidth = labelWidth + nameWidth\<close>.  The
  output starts with the \<^verbatim>\<open><svg\<close> tag whose \<^verbatim>\<open>width\<close> attribute is the decimal numeral of
  \<open>totalWidth\<close>, and it contains the label, the name and the color verbatim.
\<close>

theorem generateBadge_widths:
  "read_object c ''name'' = JStr a
   \<and> (read_object c ''badge'' = JObj b \<or> (\<not> truthy (read_object c ''badge'') \<and> b = []))
   \<and> js_or (read_object b ''label'') (JStr ''Install'') = JStr l
   \<and> js_or (read_object b ''color'') (JStr ''#0366d6'') = JStr col \<longrightarrow>
   (\<exists>out.
      generateBadge (JObj c) = Inr out
      \<and> out = (if js_or (read_object b ''style'') (JStr ''flat'') = JStr ''flat''
               then flat_badge else plain_badge)
                (show_nat (length l * 6 + 10 + (length a * 7 + 10)))
                (show_nat (length l * 6 + 10)) (show_nat (length a * 7 + 10))
                (show_half (length l * 6 + 10))
                (show_half (2 * (length l * 6 + 10) + (length a * 7 + 10)))
                col l a
      \<and> prefix (''<svg xmlns=\"http://www.w3.org/2000/svg\" width=\"''
                  @ show_nat (length l * 6 + 10 + (length a * 7 + 10)) @ ''\"'') out
      \<and> radix_value 10 (show_nat (length l * 6 + 10 + (length a * 7 + 10)))
          = (length l * 6 + 10) + (length a * 7 + 10)
      \<and> sublist ''<svg'' out \<and> sublist l out \<and> sublist a out \<and> sublist col out)"
proof
  assume h: "read_object c ''name'' = JStr a
   \<and> (read_object c ''badge'' = JObj b \<or> (\<not> truthy (read_object c ''badge'') \<and> b = []))
   \<and> js_or (read_object b ''label'') (JStr ''Install'') = JStr l
   \<and> js_or (read_object b ''color'') (JStr ''#0366d6'') = JStr col"
  define tw where "tw = show_nat (length l * 6 + 10 + (length a * 7 + 10))"
  define out where "out = (if js_or (read_object b ''style'') (JStr ''flat'') = JStr ''flat''
               then flat_badge else plain_badge)
                tw
                (show_nat (length l * 6 + 10)) (show_nat (length a * 7 + 10))
                (show_half (length l * 6 + 10))
                (show_half (2 * (length l * 6 + 10) + (length a * 7 + 10)))
                col l a"
  have g: "generateBadge (JObj c) = Inr out"
    unfolding out_def tw_def using h by (intro generateBadge_strings) blast+
  have parts: "prefix (''<svg xmlns=\"http://www.w3.org/2000/svg\" width=\"'' @ tw @ ''\"'')
        (f tw lw nw lh nm col l a)
      \<and> sublist l (f tw lw nw lh nm col l a) \<and> sublist a (f tw lw nw lh nm col l a)
      \<and> sublist col (f tw lw nw lh nm col l a)"
    if "f = flat_badge \<or> f = plain_badge" for f lw nw lh nm
  proof -
    from that show ?thesis
    proof
      assume "f = flat_badge"
      then show ?thesis by (simp only: flat_badge_parts simp_thms)
    next
      assume "f = plain_badge"
      then show ?thesis by (simp only: plain_badge_parts simp_thms)
    qed
  qed
  have "(if js_or (read_object b ''style'') (JStr ''flat'') = JStr ''flat''
         then flat_badge else plain_badge) = flat_badge
      \<or> (if js_or (read_object b ''style'') (JStr ''flat'') = JStr ''flat''
         then flat_badge else plain_badge) = plain_badge"
    by presburger
  from parts [OF this]
  have p: "prefix (''<svg xmlns=\"http://www.w3.org/2000/svg\" width=\"'' @ tw @ ''\"'') out"
    and s: "sublist l out" "sublist a out" "sublist col out"
    unfolding out_def by blast+
  have "prefix ''<svg'' (''<svg xmlns=\"http://www.w3.org/2000/svg\" width=\"'' @ tw @ ''\"'')"
    by simp
  then have "prefix ''<svg'' out" using p by (rule prefix_order.trans)
  then have sv: "sublist ''<svg'' out" by (rule prefix_imp_sublist)
  have r: "radix_value 10 tw = (length l * 6 + 10) + (length a * 7 + 10)"
    unfolding tw_def by (rule radix_value_show_nat)
  show "\<exists>out.
      generateBadge (JObj c) = Inr out
      \<and> out = (if js_or (read_object b ''style'') (JStr ''flat'') = JStr ''flat''
               then flat_badge else plain_badge)
                (show_nat (length l * 6 + 10 + (length a * 7 + 10)))
                (show_nat (length l * 6 + 10)) (show_nat (length a * 7 + 10))
                (show_half (length l * 6 + 10))
                (show_half (2 * (length l * 6 + 10) + (length a * 7 + 10)))
                col l a
      \<and> prefix (''<svg xmlns=\"http://www.w3.org/2000/svg\" width=\"''
                  @ show_nat (length l * 6 + 10 + (length a * 7 + 10)) @ ''\"'') out
      \<and> radix_value 10 (show_nat (length l * 6 + 10 + (length a * 7 + 10)))
          = (length l * 6 + 10) + (length a * 7 + 10)
      \<and> sublist ''<svg'' out \<and> sublist l out \<and> sublist a out \<and> sublist col out"
    using g p s sv r unfolding out_def tw_def by blast
qed

theorem generateBadge_widths_witness:
  "read_object [(''name'', JStr ''TestApp''),
                (''badge'', JObj [(''label'', JStr ''Download''), (''color'', JStr ''#ff0000'')])] ''name''
     = JStr ''TestApp''
   \<and> read_object [(''name'', JStr ''TestApp''),
                (''badge'', JObj [(''label'', JStr ''Download''), (''color'', JStr ''#ff0000'')])] ''badge''
     = JObj [(''label'', JStr ''Download''), (''color'', JStr ''#ff0000'')]
   \<and> js_or (read_object [(''label'', JStr ''Download''), (''color'', JStr ''#ff0000'')] ''label'')
        (JStr ''Install'') = JStr ''Download''
   \<and> js_or (read_object [(''label'', JStr ''Download''), (''color'', JStr ''#ff0000'')] ''color'')
        (JStr ''#0366d6'') = JStr ''#ff0000''
   \<and> (\<exists>out. generateBadge
               (JObj [(''name'', JStr ''TestApp''),
                      (''badge'', JObj [(''label'', JStr ''Download''), (''color'', JStr ''#ff0000'')])])
             = Inr out
           \<and> prefix ''<svg xmlns=\"http://www.w3.org/2000/svg\" width=\"117\"'' out
           \<and> sublist ''Download'' out \<and> sublist ''TestApp'' out \<and> sublist ''#ff0000'' out)"
proof -
  let ?b = "[(''label'', JStr ''Download''), (''color'', JStr ''#ff0000'')]"
  let ?c = "[(''name'', JStr ''TestApp''), (''badge'', JObj ?b)]"
  have h: "read_object ?c ''name'' = JStr ''TestApp''" "read_object ?c ''badge'' = JObj ?b"
    "js_or (read_object ?b ''label'') (JStr ''Install'') = JStr ''Download''"
    "js_or (read_object ?b ''color'') (JStr ''#0366d6'') = JStr ''#ff0000''"
    by (simp_all add: read_object_def js_or_def)
  have w: "show_nat (length ''Download'' * 6 + 10 + (length ''TestApp'' * 7 + 10)) = ''117''"
    by code_simp
  from generateBadge_widths [where c = ?c and b = ?b and l = "''Download''" and a = "''TestApp''"
      and col = "''#ff0000''"] h
  obtain out where "generateBadge (JObj ?c) = Inr out"
    and "prefix (''<svg xmlns=\"http://www.w3.org/2000/svg\" width=\"''
                  @ show_nat (length ''Download'' * 6 + 10 + (length ''TestApp'' * 7 + 10)) @ ''\"'') out"
    and "sublist ''Download'' out" "sublist ''TestApp'' out" "sublist ''#ff0000'' out"
    by blast
  then have "generateBadge (JObj ?c) = Inr out
           \<and> prefix ''<svg xmlns=\"http://www.w3.org/2000/svg\" width=\"117\"'' out
           \<and> sublist ''Download'' out \<and> sublist ''TestApp'' out \<and> sublist ''#ff0000'' out"
    unfolding w by simp
  then show ?thesis using h by blast
qed

section \<open>Properties of JSON\<close>



























lemma skip_ws_length: "length (skip_ws s) \<le> length s"
  by (simp add: skip_ws_def length_dropWhile_le)

lemma skip_ws_cons_length: "skip_ws s = c # cs \<Longrightarrow> length cs < length s"
  using skip_ws_length [of s] by simp

lemma parse_literal_shorter:
  "word \<noteq> [] \<Longrightarrow> parse_literal word v (c # cs) = Inr (w, r) \<Longrightarrow> length r \<le> length cs"
  by (cases word) (auto simp add: parse_literal_def split: if_splits)

lemma prepend_char_Inr:
  "prepend_char c x = Inr (k, r) \<Longrightarrow> \<exists>k'. x = Inr (k', r)"
  by (cases x) (auto simp add: prepend_char_def)

lemma parse_string_chars_shorter:
  "parse_string_chars s = Inr (k, r) \<Longrightarrow> length r < length s"
proof (induction s arbitrary: k rule: parse_string_chars.induct)
  case 1
  then show ?case by simp
next
  case (2 c cs)
  show ?case
  proof (cases "c = CHR 0x22")
    case True
    then show ?thesis using "2.prems" by simp
  next
    case q: False
    show ?thesis
    proof (cases "c = CHR 0x5C")
      case False
      then obtain k' where "parse_string_chars cs = Inr (k', r)"
        using "2.prems" q prepend_char_Inr by (fastforce split: if_splits)
      then show ?thesis using "2.IH"(3) [of k'] q False "2.prems" by (simp split: if_splits)
    next
      case True
      then obtain e t where cs: "cs = e # t" using "2.prems" by (cases cs) auto
      show ?thesis
      proof (cases "e = CHR ''u''")
        case False
        then obtain x k' where "unescape e = Some x" "parse_string_chars t = Inr (k', r)"
          using "2.prems" True cs prepend_char_Inr
          by (fastforce split: option.splits)
        then show ?thesis using "2.IH"(2) [of e t x k'] q True cs False by simp
      next
        case u: True
        then obtain h1 h2 h3 h4 t' where t: "t = h1 # h2 # h3 # h4 # t'"
          using "2.prems" True cs
          by (auto split: list.splits)
        then have c: "list_all ascii_hex_digit [h1, h2, h3, h4]"
          "radix_value 16 [h1, h2, h3, h4] < 256"
          using "2.prems" True cs u by (auto split: if_splits)
        then obtain k' where "parse_string_chars t' = Inr (k', r)"
          using "2.prems" True cs u t prepend_char_Inr
          by (fastforce)
        then show ?thesis
          using "2.IH"(1) [of e t h1 "h2 # h3 # h4 # t'" h2 "h3 # h4 # t'" h3 "h4 # t'" h4 t' k']
            q True cs u t c
          by simp
      qed
    qed
  qed
qed

lemma parse_number_shorter:
  "parse_number (c # cs) = Inr (v, r) \<Longrightarrow> length r \<le> length cs"
proof -
  assume a: "parse_number (c # cs) = Inr (v, r)"
  have d: "\<And>xs. takeWhile ascii_digit xs \<noteq> [] \<Longrightarrow> length (dropWhile ascii_digit xs) < length xs"
    by (metis append_self_conv2 length_append length_greater_0_conv less_add_same_cancel2
        takeWhile_dropWhile_id)
  have e: "length (dropWhile ascii_digit cs) \<le> length cs"
    by (rule length_dropWhile_le)
  show ?thesis
  proof (cases "c = CHR ''-''")
    case True
    then show ?thesis using a e
      by (auto simp add: parse_number_def Let_def split: if_splits)
  next
    case False
    then have "takeWhile ascii_digit (c # cs) \<noteq> [] \<and> r = dropWhile ascii_digit (c # cs)"
      using a by (simp add: parse_number_def Let_def split: if_splits)
    then show ?thesis using d [of "c # cs"] by simp
  qed
qed

lemma prepend_char_fuel: "x \<noteq> Inl JsonOutOfFuel \<Longrightarrow> prepend_char c x \<noteq> Inl JsonOutOfFuel"
  by (cases x) (auto simp add: prepend_char_def)

lemma parse_string_chars_fuel: "parse_string_chars s \<noteq> Inl JsonOutOfFuel"
proof (induction s rule: parse_string_chars.induct)
  case 1
  then show ?case by simp
next
  case (2 c cs)
  show ?case
  proof (cases "c = CHR 0x22")
    case True
    then show ?thesis by simp
  next
    case q: False
    show ?thesis
    proof (cases "c = CHR 0x5C")
      case False
      then show ?thesis using "2.IH"(3) q by (simp add: prepend_char_fuel)
    next
      case True
      show ?thesis
      proof (cases cs)
        case Nil
        then show ?thesis using True by simp
      next
        case (Cons e t)
        show ?thesis
        proof (cases "e = CHR ''u''")
          case False
          then show ?thesis using "2.IH"(2) [of e t] q True Cons
            by (cases "unescape e") (simp_all add: prepend_char_fuel)
        next
          case u: True
          consider (short) "length t < 4" | (long) h1 h2 h3 h4 t' where "t = h1 # h2 # h3 # h4 # t'"
            by (cases t; simp; cases "tl t"; simp; cases "tl (tl t)"; simp; cases "tl (tl (tl t))"; simp)
          then show ?thesis
          proof cases
            case short
            then show ?thesis using True Cons u
              by (cases t; simp; cases "tl t"; simp; cases "tl (tl t)"; simp; cases "tl (tl (tl t))"; simp)
          next
            case long
            then show ?thesis
              using "2.IH"(1) [of e t h1 "h2 # h3 # h4 # t'" h2 "h3 # h4 # t'" h3 "h4 # t'" h4 t']
                q True Cons u
              by (simp add: prepend_char_fuel)
          qed
        qed
      qed
    qed
  qed
qed

lemma parse_number_fuel: "parse_number s \<noteq> Inl JsonOutOfFuel"
  by (simp add: parse_number_def Let_def)

lemma parse_literal_fuel: "parse_literal word v s \<noteq> Inl JsonOutOfFuel"
  by (simp add: parse_literal_def)

lemma parse_value_step_shorter:
  assumes pv: "\<And>s v r. parse_value f s = Inr (v, r) \<Longrightarrow> length r < length s"
    and pe: "\<And>acc s v r. parse_more_elements f acc s = Inr (v, r) \<Longrightarrow> length r < length s"
    and pm: "\<And>acc s v r. parse_members f acc s = Inr (v, r) \<Longrightarrow> length r < length s"
    and a: "parse_value (Suc f) s = Inr (v, r)"
  shows "length r < length s"
proof -
  obtain c cs where sk: "skip_ws s = c # cs"
    using a by (cases "skip_ws s") auto
  have l: "length cs < length s" by (rule skip_ws_cons_length [OF sk])
  have w: "length (skip_ws cs) \<le> length cs" by (rule skip_ws_length)
  consider (lit) w x where "w \<noteq> []" "parse_literal w x (c # cs) = Inr (v, r)"
    | (str) k where "parse_string_chars cs = Inr (k, r)"
    | (num) "parse_number (c # cs) = Inr (v, r)"
    | (empty) "r = tl (skip_ws cs)"
    | (arr) p where "parse_value f cs = Inr p" "parse_more_elements f [fst p] (snd p) = Inr (v, r)"
    | (obj) "parse_members f [] cs = Inr (v, r)"
    using a unfolding parse_value.simps sk list.case
    by (fastforce split: if_splits sum.splits)
  then show ?thesis
  proof cases
    case lit
    then show ?thesis using parse_literal_shorter l by fastforce
  next
    case (str k)
    then show ?thesis using parse_string_chars_shorter [of cs k r] l by simp
  next
    case num
    then show ?thesis using parse_number_shorter [of c cs v r] l by simp
  next
    case empty
    then show ?thesis using w l by simp
  next
    case (arr p)
    then show ?thesis using pv [of cs "fst p" "snd p"] pe [of "[fst p]" "snd p" v r] l by simp
  next
    case obj
    then show ?thesis using pm [of "[]" cs v r] l by simp
  qed
qed

lemma parse_more_elements_step_shorter:
  assumes pv: "\<And>s v r. parse_value f s = Inr (v, r) \<Longrightarrow> length r < length s"
    and pe: "\<And>acc s v r. parse_more_elements f acc s = Inr (v, r) \<Longrightarrow> length r < length s"
    and a: "parse_more_elements (Suc f) acc s = Inr (v, r)"
  shows "length r < length s"
proof -
  obtain c cs where sk: "skip_ws s = c # cs"
    using a by (cases "skip_ws s") auto
  have l: "length cs < length s" by (rule skip_ws_cons_length [OF sk])
  consider (closing) "r = cs"
    | (more) p where "parse_value f cs = Inr p"
        "parse_more_elements f (acc @ [fst p]) (snd p) = Inr (v, r)"
    using a unfolding parse_more_elements.simps sk list.case
    by (fastforce split: if_splits sum.splits)
  then show ?thesis
  proof cases
    case closing
    then show ?thesis using l by simp
  next
    case (more p)
    then show ?thesis
      using pv [of cs "fst p" "snd p"] pe [of "acc @ [fst p]" "snd p" v r] l by simp
  qed
qed

lemma parse_members_step_shorter:
  assumes pv: "\<And>s v r. parse_value f s = Inr (v, r) \<Longrightarrow> length r < length s"
    and pm: "\<And>acc s v r. parse_members f acc s = Inr (v, r) \<Longrightarrow> length r < length s"
    and a: "parse_members (Suc f) acc s = Inr (v, r)"
  shows "length r < length s"
proof -
  obtain c cs where sk: "skip_ws s = c # cs"
    using a by (cases "skip_ws s") auto
  have l: "length cs < length s" by (rule skip_ws_cons_length [OF sk])
  obtain k where k: "parse_string_chars cs = Inr k"
    using a by (cases "parse_string_chars cs") (auto simp add: sk split: if_splits)
  have lk: "length (snd k) < length cs"
    using parse_string_chars_shorter [of cs "fst k" "snd k"] k by simp
  obtain d ds where sd: "skip_ws (snd k) = d # ds"
    using a by (cases "skip_ws (snd k)") (auto simp add: sk k split: if_splits)
  have ld: "length ds < length (snd k)" by (rule skip_ws_cons_length [OF sd])
  obtain p where p: "parse_value f ds = Inr p"
    using a by (cases "parse_value f ds") (auto simp add: sk k sd split: if_splits)
  have lp: "length (snd p) < length ds" using pv [of ds "fst p" "snd p"] p by simp
  obtain x xs where sx: "skip_ws (snd p) = x # xs"
    using a by (cases "skip_ws (snd p)") (auto simp add: sk k sd p split: if_splits)
  have lx: "length xs < length (snd p)" by (rule skip_ws_cons_length [OF sx])
  consider (closing) "r = xs"
    | (more) "parse_members f (define_property acc (fst k) (fst p)) xs = Inr (v, r)"
    using a by (auto simp add: sk k sd p sx split: if_splits)
  then show ?thesis
  proof cases
    case closing
    then show ?thesis using l lk ld lp lx by simp
  next
    case more
    then show ?thesis
      using pm [of "define_property acc (fst k) (fst p)" xs v r] l lk ld lp lx by simp
  qed
qed

lemma parse_shorter:
  "(\<forall>s v r. parse_value f s = Inr (v, r) \<longrightarrow> length r < length s)
   \<and> (\<forall>acc s v r. parse_more_elements f acc s = Inr (v, r) \<longrightarrow> length r < length s)
   \<and> (\<forall>acc s v r. parse_members f acc s = Inr (v, r) \<longrightarrow> length r < length s)"
proof (induction f)
  case 0
  show ?case by simp
next
  case (Suc f)
  have pv: "\<And>s v r. parse_value f s = Inr (v, r) \<Longrightarrow> length r < length s"
    and pe: "\<And>acc s v r. parse_more_elements f acc s = Inr (v, r) \<Longrightarrow> length r < length s"
    and pm: "\<And>acc s v r. parse_members f acc s = Inr (v, r) \<Longrightarrow> length r < length s"
    using Suc.IH by blast+
  show ?case
  proof (intro conjI allI impI)
    fix s v r
    assume a: "parse_value (Suc f) s = Inr (v, r)"
    show "length r < length s"
      by (rule parse_value_step_shorter [where f = f, OF _ _ _ a]) (fact pv pe pm)+
  next
    fix acc s v r
    assume a: "parse_more_elements (Suc f) acc s = Inr (v, r)"
    show "length r < length s"
      by (rule parse_more_elements_step_shorter [where f = f, OF _ _ a]) (fact pv pe)+
  next
    fix acc s v r
    assume a: "parse_members (Suc f) acc s = Inr (v, r)"
    show "length r < length s"
      by (rule parse_members_step_shorter [where f = f, OF _ _ a]) (fact pv pm)+
  qed
qed

lemma parse_value_shorter: "parse_value f s = Inr p \<Longrightarrow> length (snd p) < length s"
  using parse_shorter [of f] by (cases p) auto

lemma parse_value_step_fuel:
  assumes pv: "\<And>s. length s < f \<Longrightarrow> parse_value f s \<noteq> Inl JsonOutOfFuel"
    and pe: "\<And>acc s. length s < f \<Longrightarrow> parse_more_elements f acc s \<noteq> Inl JsonOutOfFuel"
    and pm: "\<And>acc s. length s < f \<Longrightarrow> parse_members f acc s \<noteq> Inl JsonOutOfFuel"
    and a: "length s < Suc f"
  shows "parse_value (Suc f) s \<noteq> Inl JsonOutOfFuel"
proof (cases "skip_ws s")
  case Nil
  then show ?thesis by simp
next
  case (Cons c cs)
  have l: "length cs < f" using skip_ws_cons_length [OF Cons] a by simp
  have 1: "parse_value f cs \<noteq> Inl JsonOutOfFuel" by (rule pv [OF l])
  have 2: "parse_more_elements f [fst p] (snd p) \<noteq> Inl JsonOutOfFuel"
    if "parse_value f cs = Inr p" for p
    using parse_value_shorter [OF that] l by (intro pe) simp
  have 3: "parse_members f [] cs \<noteq> Inl JsonOutOfFuel" by (rule pm [OF l])
  have 4: "parse_string_chars cs \<noteq> Inl JsonOutOfFuel" by (rule parse_string_chars_fuel)
  show ?thesis
    using 1 2 3 4 parse_number_fuel [of "c # cs"] parse_literal_fuel
    by (auto simp add: Cons split: sum.splits)
qed

lemma parse_more_elements_step_fuel:
  assumes pv: "\<And>s. length s < f \<Longrightarrow> parse_value f s \<noteq> Inl JsonOutOfFuel"
    and pe: "\<And>acc s. length s < f \<Longrightarrow> parse_more_elements f acc s \<noteq> Inl JsonOutOfFuel"
    and a: "length s < Suc f"
  shows "parse_more_elements (Suc f) acc s \<noteq> Inl JsonOutOfFuel"
proof (cases "skip_ws s")
  case Nil
  then show ?thesis by simp
next
  case (Cons c cs)
  have l: "length cs < f" using skip_ws_cons_length [OF Cons] a by simp
  have 1: "parse_value f cs \<noteq> Inl JsonOutOfFuel" by (rule pv [OF l])
  have 2: "parse_more_elements f (acc @ [fst p]) (snd p) \<noteq> Inl JsonOutOfFuel"
    if "parse_value f cs = Inr p" for p
    using parse_value_shorter [OF that] l by (intro pe) simp
  show ?thesis
    using 1 2 by (auto simp add: Cons split: sum.splits)
qed

lemma parse_members_step_fuel:
  assumes pv: "\<And>s. length s < f \<Longrightarrow> parse_value f s \<noteq> Inl JsonOutOfFuel"
    and pm: "\<And>acc s. length s < f \<Longrightarrow> parse_members f acc s \<noteq> Inl JsonOutOfFuel"
    and a: "length s < Suc f"
  shows "parse_members (Suc f) acc s \<noteq> Inl JsonOutOfFuel"
proof (cases "skip_ws s")
  case Nil
  then show ?thesis by simp
next
  case (Cons c cs)
  have l: "length cs < f" using skip_ws_cons_length [OF Cons] a by simp
  show ?thesis
  proof (cases "parse_string_chars cs")
    case (Inl e)
    then show ?thesis using parse_string_chars_fuel [of cs] by (auto simp add: Cons)
  next
    case (Inr k)
    have lk: "length (snd k) < f"
      using parse_string_chars_shorter [of cs "fst k" "snd k"] Inr l by simp
    show ?thesis
    proof (cases "skip_ws (snd k)")
      case Nil
      then show ?thesis by (simp add: Cons Inr)
    next
      case sd: (Cons d ds)
      have ld: "length ds < f" using skip_ws_cons_length [OF sd] lk by simp
      show ?thesis
      proof (cases "parse_value f ds")
        case pl: (Inl e)
        then show ?thesis using pv [OF ld] by (auto simp add: Cons Inr sd)
      next
        case p: (Inr p)
        have lp: "length (snd p) < f" using parse_value_shorter [OF p] ld by simp
        show ?thesis
        proof (cases "skip_ws (snd p)")
          case Nil
          then show ?thesis by (simp add: Cons Inr sd p)
        next
          case sx: (Cons x xs)
          have "length xs < f" using skip_ws_cons_length [OF sx] lp by simp
          then have "parse_members f (define_property acc (fst k) (fst p)) xs \<noteq> Inl JsonOutOfFuel"
            by (rule pm)
          then show ?thesis by (simp add: Cons Inr sd p sx)
        qed
      qed
    qed
  qed
qed

lemma parse_fuel:
  "(\<forall>s. length s < f \<longrightarrow> parse_value f s \<noteq> Inl JsonOutOfFuel)
   \<and> (\<forall>acc s. length s < f \<longrightarrow> parse_more_elements f acc s \<noteq> Inl JsonOutOfFuel)
   \<and> (\<forall>acc s. length s < f \<longrightarrow> parse_members f acc s \<noteq> Inl JsonOutOfFuel)"
proof (induction f)
  case 0
  show ?case by simp
next
  case (Suc f)
  have pv: "\<And>s. length s < f \<Longrightarrow> parse_value f s \<noteq> Inl JsonOutOfFuel"
    and pe: "\<And>acc s. length s < f \<Longrightarrow> parse_more_elements f acc s \<noteq> Inl JsonOutOfFuel"
    and pm: "\<And>acc s. length s < f \<Longrightarrow> parse_members f acc s \<noteq> Inl JsonOutOfFuel"
    using Suc.IH by blast+
  show ?case
  proof (intro conjI allI impI)
    fix s :: string
    assume a: "length s < Suc f"
    show "parse_value (Suc f) s \<noteq> Inl JsonOutOfFuel"
      by (rule parse_value_step_fuel [where f = f, OF _ _ _ a]) (fact pv pe pm)+
  next
    fix acc and s :: string
    assume a: "length s < Suc f"
    show "parse_more_elements (Suc f) acc s \<noteq> Inl JsonOutOfFuel"
      by (rule parse_more_elements_step_fuel [where f = f, OF _ _ a]) (fact pv pe)+
  next
    fix acc and s :: string
    assume a: "length s < Suc f"
    show "parse_members (Suc f) acc s \<noteq> Inl JsonOutOfFuel"
      by (rule parse_members_step_fuel [where f = f, OF _ _ a]) (fact pv pm)+
  qed
qed

lemma json_parse_fuel: "json_parse s \<noteq> Inl JsonOutOfFuel"
  using parse_fuel [of "Suc (length s)"]
  by (auto simp add: json_parse_def split: sum.splits)

section \<open>Properties of parsing\<close>




end
